theory Spec2Isabelle
  imports Main
begin

section \<open>The CarTrace Pro service worker (service-worker.js)\<close>

text \<open>
  A shallow embedding of \<^verbatim>\<open>src/service-worker.js\<close>. Every handler of the worker is a
  function from the state it can touch to the value its promise settles with and the
  state afterwards. The platform the worker runs on is made explicit:
  \<^item> the network is a function from a request to \<open>Some\<close> response, or \<open>None\<close> when
    \<^verbatim>\<open>fetch\<close> rejects (no connectivity); every call of \<^verbatim>\<open>fetch\<close> is appended to a log;
  \<^item> \<^verbatim>\<open>caches\<close> (the CacheStorage) is a list of named caches in creation order, each cache a
    list of entries keyed by request URL;
  \<^item> a rejected promise or a thrown exception is \<open>Inl\<close> of the error; a promise that
    resolves with \<^verbatim>\<open>undefined\<close> instead of a Response is \<open>Inr None\<close>.
\<close>

subsection \<open>Strings\<close>

definition startsWith :: "string \<Rightarrow> string \<Rightarrow> bool" where
  "startsWith s p = (take (length p) s = p)"

definition endsWith :: "string \<Rightarrow> string \<Rightarrow> bool" where
  "endsWith s x = (length x \<le> length s \<and> drop (length s - length x) s = x)"

text \<open>\<^verbatim>\<open>String.prototype.includes\<close>: the second string occurs somewhere in the first.\<close>

fun str_includes :: "string \<Rightarrow> string \<Rightarrow> bool" where
  "str_includes [] t = (t = [])"
| "str_includes (c # s) t = (startsWith (c # s) t \<or> str_includes s t)"

text \<open>ASCII lower case, and a comma-separated list of values with the blanks around each
  value removed: the way the platform reads the names and the values of a header.\<close>

definition lower_char :: "char \<Rightarrow> char" where
  "lower_char c =
     (case map_of (zip ''ABCDEFGHIJKLMNOPQRSTUVWXYZ'' ''abcdefghijklmnopqrstuvwxyz'') c of
        None \<Rightarrow> c
      | Some d \<Rightarrow> d)"

definition toLowerCase :: "string \<Rightarrow> string" where
  "toLowerCase s = map lower_char s"

fun split_commas :: "string \<Rightarrow> string list" where
  "split_commas [] = [[]]"
| "split_commas (c # s) =
     (if c = CHR '','' then [] # split_commas s
      else (case split_commas s of [] \<Rightarrow> [[c]] | x # xs \<Rightarrow> (c # x) # xs))"

definition blank :: "char \<Rightarrow> bool" where
  "blank c = (c = CHR '' '' \<or> c = CHR 0x09)"

definition trim :: "string \<Rightarrow> string" where
  "trim s = rev (dropWhile blank (rev (dropWhile blank s)))"

subsection \<open>Requests, responses, errors\<close>

type_synonym header_list = "(string \<times> string) list"

record request =
  req_method :: string
  url :: string
  req_headers :: header_list
  req_body :: string

record response =
  status :: nat
  statusText :: string
  headers :: header_list
  body :: string

datatype js_error = TypeError | RangeError | SyntaxError

text \<open>\<^verbatim>\<open>headers.get(name)\<close> is \<^verbatim>\<open>null\<close> (here \<open>None\<close>) when the header is absent.\<close>

definition headers_get :: "header_list \<Rightarrow> string \<Rightarrow> string option" where
  "headers_get hs n = map_of hs n"

text \<open>\<^verbatim>\<open>headers.set(name, value)\<close> replaces the header's value, or appends the header.\<close>

fun headers_set :: "header_list \<Rightarrow> string \<Rightarrow> string \<Rightarrow> header_list" where
  "headers_set [] n v = [(n, v)]"
| "headers_set ((k, w) # hs) n v =
     (if k = n then (n, v) # filter (\<lambda>h. fst h \<noteq> n) hs else (k, w) # headers_set hs n v)"

text \<open>
  \<^verbatim>\<open>new Response(body, {status, statusText, headers})\<close>. The constructor throws a
  RangeError for a status outside 200..599.
\<close>

definition new_Response :: "string \<Rightarrow> nat \<Rightarrow> string \<Rightarrow> header_list \<Rightarrow> js_error + response" where
  "new_Response b st txt hs =
     (if 200 \<le> st \<and> st \<le> 599
      then Inr \<lparr>status = st, statusText = txt, headers = hs, body = b\<rparr>
      else Inl RangeError)"

text \<open>A request made from a URL string alone (\<^verbatim>\<open>fetch(url)\<close>, \<^verbatim>\<open>cache.match(url)\<close>): a GET.
  A path such as \<^verbatim>\<open>/offline.html\<close> is resolved against the worker's origin.\<close>

definition request_of :: "string \<Rightarrow> request" where
  "request_of u = \<lparr>req_method = ''GET'', url = u, req_headers = [], req_body = ''''\<rparr>"

definition resolve :: "string \<Rightarrow> string \<Rightarrow> string" where
  "resolve origin path = origin @ path"

subsection \<open>Constants of the worker\<close>

definition CACHE_VERSION :: string where
  "CACHE_VERSION = ''cartrace-v1.0.0''"

definition CACHE_NAME :: string where
  "CACHE_NAME = ''cartrace-pro-'' @ CACHE_VERSION"

definition STATIC_ASSETS :: "string list" where
  "STATIC_ASSETS =
     [''/'', ''/index.html'', ''/cartrace_homepage_enhanced.html'', ''/emergency_report.html'',
      ''/dashboard.html'', ''/auth.html'', ''/analytics_dashboard.html'', ''/about.html'',
      ''/firebase_config.js'', ''/database_helper.js'', ''/image_compression.js'',
      ''/api_integration.js'']"

definition API_CACHE_NAME :: string where
  "API_CACHE_NAME = CACHE_NAME @ ''-api''"

subsection \<open>The cache store\<close>

type_synonym cache = "(string \<times> response) list"

type_synonym cache_storage = "(string \<times> cache) list"

text \<open>
  The state a handler can change: the cache storage, the log of the network fetches
  started, the log of those among them that a handler awaited (it was suspended until
  the fetch had settled, and its own promise settles after it), and whether
  \<^verbatim>\<open>self.skipWaiting()\<close> and \<^verbatim>\<open>clients.claim()\<close> have been called.
\<close>

record world =
  caches :: cache_storage
  fetches :: "request list"
  awaited :: "request list"
  skipWaiting_called :: bool
  clients_claimed :: bool

text \<open>\<^verbatim>\<open>cache.match(request)\<close>: the entry stored under the request's URL; a request that is
  not a GET matches nothing.\<close>

definition cache_match :: "cache \<Rightarrow> request \<Rightarrow> response option" where
  "cache_match c r = (if req_method r \<noteq> ''GET'' then None else map_of c (url r))"

text \<open>Storing a response under a URL replaces the entry of that URL as a whole.\<close>

definition cache_store :: "cache \<Rightarrow> string \<Rightarrow> response \<Rightarrow> cache" where
  "cache_store c u resp = filter (\<lambda>e. fst e \<noteq> u) c @ [(u, resp)]"

text \<open>A response whose \<^verbatim>\<open>Vary\<close> header lists \<^verbatim>\<open>*\<close>.\<close>

definition vary_star :: "response \<Rightarrow> bool" where
  "vary_star resp =
     (''*'' \<in> set (map trim (concat (map (\<lambda>h. split_commas (snd h))
                      (filter (\<lambda>h. toLowerCase (fst h) = ''vary'') (headers resp))))))"

definition http_scheme :: "string \<Rightarrow> bool" where
  "http_scheme u = (startsWith u ''http://'' \<or> startsWith u ''https://'')"

text \<open>
  \<^verbatim>\<open>cache.put(request, response)\<close> stores the response under the request's URL. Its promise
  rejects with a TypeError, and nothing is stored, for a request that is not a GET or
  not over http(s), for a response with status 206 and for a response with \<^verbatim>\<open>Vary: *\<close>.
  No caller in the worker awaits that promise, so the rejection goes unnoticed.
\<close>

definition put_accepts :: "request \<Rightarrow> response \<Rightarrow> bool" where
  "put_accepts r resp =
     (req_method r = ''GET'' \<and> http_scheme (url r) \<and> status resp \<noteq> 206 \<and> \<not> vary_star resp)"

definition cache_put :: "cache \<Rightarrow> request \<Rightarrow> response \<Rightarrow> cache" where
  "cache_put c r resp = (if put_accepts r resp then cache_store c (url r) resp else c)"

definition cache_delete :: "cache \<Rightarrow> string \<Rightarrow> cache" where
  "cache_delete c u = filter (\<lambda>e. fst e \<noteq> u) c"

definition cache_keys :: "cache \<Rightarrow> string list" where
  "cache_keys c = map fst c"

text \<open>\<^verbatim>\<open>caches.open(name)\<close> creates the cache when there is none of that name.\<close>

definition caches_open :: "cache_storage \<Rightarrow> string \<Rightarrow> cache_storage" where
  "caches_open cs name = (if name \<in> set (map fst cs) then cs else cs @ [(name, [])])"

text \<open>The content of the named cache (empty when there is none).\<close>

definition cache_named :: "cache_storage \<Rightarrow> string \<Rightarrow> cache" where
  "cache_named cs name = (case map_of cs name of None \<Rightarrow> [] | Some c \<Rightarrow> c)"

definition update_named :: "cache_storage \<Rightarrow> string \<Rightarrow> (cache \<Rightarrow> cache) \<Rightarrow> cache_storage" where
  "update_named cs name f = map (\<lambda>(n, c). if n = name then (n, f c) else (n, c)) cs"

definition caches_delete :: "cache_storage \<Rightarrow> string \<Rightarrow> cache_storage" where
  "caches_delete cs name = filter (\<lambda>e. fst e \<noteq> name) cs"

definition caches_keys :: "cache_storage \<Rightarrow> string list" where
  "caches_keys cs = map fst cs"

text \<open>\<^verbatim>\<open>caches.match(request)\<close>: the first match over all caches, in creation order.\<close>

fun caches_match :: "cache_storage \<Rightarrow> request \<Rightarrow> response option" where
  "caches_match [] r = None"
| "caches_match ((n, c) # cs) r =
     (case cache_match c r of Some resp \<Rightarrow> Some resp | None \<Rightarrow> caches_match cs r)"

text \<open>\<^verbatim>\<open>fetch(request)\<close>: the call is logged, and its promise settles with the network's
  answer. \<^verbatim>\<open>await fetch(request)\<close> moreover suspends the handler until then.\<close>

definition fetch :: "(request \<Rightarrow> response option) \<Rightarrow> world \<Rightarrow> request \<Rightarrow> response option \<times> world" where
  "fetch net w r = (net r, w\<lparr>fetches := fetches w @ [r]\<rparr>)"

definition await_fetch ::
  "(request \<Rightarrow> response option) \<Rightarrow> world \<Rightarrow> request \<Rightarrow> response option \<times> world" where
  "await_fetch net w r = (net r, w\<lparr>fetches := fetches w @ [r], awaited := awaited w @ [r]\<rparr>)"

subsection \<open>Activate: clean up old caches\<close>

text \<open>
  \<^verbatim>\<open>
  caches.keys().then((cacheNames) => Promise.all(
      cacheNames
        .filter((name) => name.startsWith('cartrace-') && name !== CACHE_NAME
                          && name !== API_CACHE_NAME)
        .map((name) => caches.delete(name))))
    .then(() => self.clients.claim())
  \<close>
\<close>

definition stale :: "string \<Rightarrow> bool" where
  "stale name = (startsWith name ''cartrace-'' \<and> name \<noteq> CACHE_NAME \<and> name \<noteq> API_CACHE_NAME)"

definition activate :: "world \<Rightarrow> world" where
  "activate w =
     w\<lparr>caches := fold (\<lambda>name cs. caches_delete cs name) (filter stale (caches_keys (caches w))) (caches w),
       clients_claimed := True\<rparr>"

subsection \<open>Install: cache static assets\<close>

definition response_ok :: "response \<Rightarrow> bool" where
  "response_ok r = (200 \<le> status r \<and> status r \<le> 299)"

text \<open>\<^verbatim>\<open>addAll\<close> takes a response with an ok status, other than the partial 206, and
  without \<^verbatim>\<open>Vary: *\<close>.\<close>

definition addAll_accepts :: "response \<Rightarrow> bool" where
  "addAll_accepts r = (response_ok r \<and> status r \<noteq> 206 \<and> \<not> vary_star r)"

text \<open>The responses of a batch, when every fetch resolved with a response \<^verbatim>\<open>addAll\<close> takes.\<close>

fun collect_ok :: "response option list \<Rightarrow> response list option" where
  "collect_ok [] = Some []"
| "collect_ok (None # rs) = None"
| "collect_ok (Some r # rs) =
     (if addAll_accepts r then map_option (\<lambda>xs. r # xs) (collect_ok rs) else None)"

definition put_all :: "cache \<Rightarrow> (request \<times> response) list \<Rightarrow> cache" where
  "put_all c es = fold (\<lambda>e acc. cache_store acc (url (fst e)) (snd e)) es c"

text \<open>
  \<^verbatim>\<open>cache.addAll(urls)\<close> fetches every URL and stores the responses all together; when
  one fetch fails or answers with a response it does not take, the promise rejects with
  a TypeError and nothing is stored. \<open>origin\<close> is the worker's own origin, over http(s),
  against which the URLs are resolved.
\<close>

definition addAll ::
  "(request \<Rightarrow> response option) \<Rightarrow> string \<Rightarrow> world \<Rightarrow> string \<Rightarrow> string list \<Rightarrow> (js_error + unit) \<times> world" where
  "addAll net origin w name urls =
     (let reqs = map (\<lambda>u. request_of (resolve origin u)) urls;
          w1 = w\<lparr>fetches := fetches w @ reqs\<rparr>
      in case collect_ok (map net reqs) of
           None \<Rightarrow> (Inl TypeError, w1)
         | Some resps \<Rightarrow>
             (Inr (), w1\<lparr>caches := update_named (caches w1) name (\<lambda>c. put_all c (zip reqs resps))\<rparr>))"

text \<open>
  \<^verbatim>\<open>
  event.waitUntil(
      caches.open(CACHE_NAME)
          .then((cache) => cache.addAll(STATIC_ASSETS))
          .then(() => self.skipWaiting())
          .catch((error) => { console.error('[Service Worker] Installation failed:', error); }))
  \<close>
  The first component is what the promise given to \<^verbatim>\<open>waitUntil\<close> settles with. The
  \<^verbatim>\<open>catch\<close> handler logs the error and returns normally, so the chain resolves.
\<close>

definition install ::
  "(request \<Rightarrow> response option) \<Rightarrow> string \<Rightarrow> world \<Rightarrow> (js_error + unit) \<times> world" where
  "install net origin w =
     (let w1 = w\<lparr>caches := caches_open (caches w) CACHE_NAME\<rparr>
      in case addAll net origin w1 CACHE_NAME STATIC_ASSETS of
           (Inr u, w2) \<Rightarrow> (Inr (), w2\<lparr>skipWaiting_called := True\<rparr>)
         | (Inl error, w2) \<Rightarrow> (Inr (), w2))"

subsection \<open>Fetch strategies\<close>

definition put_in :: "world \<Rightarrow> string \<Rightarrow> request \<Rightarrow> response \<Rightarrow> world" where
  "put_in w name r resp = w\<lparr>caches := update_named (caches w) name (\<lambda>c. cache_put c r resp)\<rparr>"

text \<open>What an async strategy settles with: an error, a Response, or \<^verbatim>\<open>undefined\<close>.\<close>

type_synonym settled = "js_error + response option"

definition responding :: "js_error + response \<Rightarrow> settled" where
  "responding x = map_sum id Some x"

text \<open>
  Cache-first (lines 97-127). On a hit the revalidating \<^verbatim>\<open>fetch\<close> is started and not
  awaited: the function returns the cached response at once. The state returned is the
  one after that fetch has settled and its \<^verbatim>\<open>then\<close> handler has run.
\<close>

definition cacheFirst ::
  "(request \<Rightarrow> response option) \<Rightarrow> world \<Rightarrow> request \<Rightarrow> settled \<times> world" where
  "cacheFirst net w request =
     (let w1 = w\<lparr>caches := caches_open (caches w) CACHE_NAME\<rparr>
      in case cache_match (cache_named (caches w1) CACHE_NAME) request of
           Some cachedResponse \<Rightarrow>
             (case fetch net w1 request of
                (Some response, w2) \<Rightarrow>
                  (Inr (Some cachedResponse),
                   if status response = 200 then put_in w2 CACHE_NAME request response else w2)
              | (None, w2) \<Rightarrow> (Inr (Some cachedResponse), w2))
         | None \<Rightarrow>
             (case await_fetch net w1 request of
                (Some networkResponse, w2) \<Rightarrow>
                  (Inr (Some networkResponse),
                   if status networkResponse = 200
                   then put_in w2 CACHE_NAME request networkResponse else w2)
              | (None, w2) \<Rightarrow>
                  (responding (new_Response ''Offline - Resource not cached'' 503
                     ''Service Unavailable'' []), w2)))"

text \<open>
  Network-first (lines 130-164). In the catch block
  \<^verbatim>\<open>request.headers.get('Accept').includes('text/html')\<close> throws a TypeError when the
  request has no Accept header, and
  \<^verbatim>\<open>return offlineCache.match('/offline.html') || new Response('Offline', ...)\<close>
  returns the promise of the match, which is an object and so never falsy: the function
  settles with the cached page, or with \<^verbatim>\<open>undefined\<close> when the page is not cached.
\<close>

definition networkFirst ::
  "(request \<Rightarrow> response option) \<Rightarrow> string \<Rightarrow> world \<Rightarrow> request \<Rightarrow> settled \<times> world" where
  "networkFirst net origin w request =
     (case await_fetch net w request of
        (Some networkResponse, w1) \<Rightarrow>
          (Inr (Some networkResponse),
           if status networkResponse = 200
           then put_in (w1\<lparr>caches := caches_open (caches w1) CACHE_NAME\<rparr>) CACHE_NAME
                  request networkResponse
           else w1)
      | (None, w1) \<Rightarrow>
          (case caches_match (caches w1) request of
             Some cachedResponse \<Rightarrow> (Inr (Some cachedResponse), w1)
           | None \<Rightarrow>
               (case headers_get (req_headers request) ''Accept'' of
                  None \<Rightarrow> (Inl TypeError, w1)
                | Some accept \<Rightarrow>
                    if str_includes accept ''text/html''
                    then (let w2 = w1\<lparr>caches := caches_open (caches w1) CACHE_NAME\<rparr>
                          in (Inr (cache_match (cache_named (caches w2) CACHE_NAME)
                                     (request_of (resolve origin ''/offline.html''))), w2))
                    else (responding (new_Response ''Offline'' 503 ''Service Unavailable'' []),
                          w1))))"

text \<open>
  API network-first (lines 167-205). The body of the 503 response is the text that
  \<^verbatim>\<open>JSON.stringify({error: 'Offline', message: 'Unable to fetch data while offline',
  cached: false})\<close> gives.
\<close>

definition apiNetworkFirst ::
  "(request \<Rightarrow> response option) \<Rightarrow> world \<Rightarrow> request \<Rightarrow> settled \<times> world" where
  \<open>apiNetworkFirst net w request =
     (case await_fetch net w request of
        (Some networkResponse, w1) \<Rightarrow>
          (Inr (Some networkResponse),
           if status networkResponse = 200
           then put_in (w1\<lparr>caches := caches_open (caches w1) API_CACHE_NAME\<rparr>) API_CACHE_NAME
                  request networkResponse
           else w1)
      | (None, w1) \<Rightarrow>
          (let w2 = w1\<lparr>caches := caches_open (caches w1) API_CACHE_NAME\<rparr>
           in case cache_match (cache_named (caches w2) API_CACHE_NAME) request of
                Some cachedResponse \<Rightarrow>
                  (responding
                     (new_Response (body cachedResponse) (status cachedResponse)
                        (statusText cachedResponse)
                        (headers_set (headers cachedResponse) ''X-Offline-Response'' ''true'')),
                   w2)
              | None \<Rightarrow>
                  (responding
                     (new_Response
                        ''{"error":"Offline","message":"Unable to fetch data while offline","cached":false}''
                        503 [] [(''Content-Type'', ''application/json'')]),
                   w2)))\<close>

definition isStaticAsset :: "string \<Rightarrow> bool" where
  "isStaticAsset pathname =
     (endsWith pathname ''.html'' \<or> endsWith pathname ''.js'' \<or> endsWith pathname ''.css'' \<or>
      endsWith pathname ''.png'' \<or> endsWith pathname ''.jpg'' \<or> endsWith pathname ''.svg'' \<or>
      endsWith pathname ''.ico'')"

text \<open>
  The fetch listener (lines 76-94); \<open>pathname_of\<close> stands for
  \<^verbatim>\<open>new URL(request.url).pathname\<close>. The result is what \<^verbatim>\<open>event.respondWith\<close> receives.
\<close>

definition fetch_listener ::
  "(string \<Rightarrow> string) \<Rightarrow> (request \<Rightarrow> response option) \<Rightarrow> string \<Rightarrow> world \<Rightarrow> request
     \<Rightarrow> settled \<times> world" where
  "fetch_listener pathname_of net origin w request =
     (let pathname = pathname_of (url request)
      in if req_method request \<noteq> ''GET'' then networkFirst net origin w request
         else if startsWith pathname ''/api/'' then apiNetworkFirst net w request
         else if isStaticAsset pathname then cacheFirst net w request
         else networkFirst net origin w request)"

subsection \<open>Messages from clients\<close>

record message_data =
  msg_type :: string
  msg_urls :: "string list option"
  msg_cacheName :: "string option"

text \<open>\<^verbatim>\<open>a || b\<close> on an optional string: \<^verbatim>\<open>undefined\<close> and the empty string are falsy.\<close>

fun js_or :: "string option \<Rightarrow> string \<Rightarrow> string" where
  "js_or None d = d"
| "js_or (Some s) d = (if s = [] then d else s)"

text \<open>The message listener (lines 219-235): three independent tests of the type.\<close>

definition message_listener ::
  "(request \<Rightarrow> response option) \<Rightarrow> string \<Rightarrow> world \<Rightarrow> message_data \<Rightarrow> world" where
  "message_listener net origin w d =
     (let w1 = (if msg_type d = ''SKIP_WAITING'' then w\<lparr>skipWaiting_called := True\<rparr> else w);
          w2 = (if msg_type d = ''CACHE_URLS''
                then (let w' = w1\<lparr>caches := caches_open (caches w1) CACHE_NAME\<rparr>
                      in case msg_urls d of
                           None \<Rightarrow> w'
                         | Some urls \<Rightarrow> snd (addAll net origin w' CACHE_NAME urls))
                else w1)
      in if msg_type d = ''CLEAR_CACHE''
         then w2\<lparr>caches := caches_delete (caches w2) (js_or (msg_cacheName d) CACHE_NAME)\<rparr>
         else w2)"

subsection \<open>Background sync of offline actions\<close>

text \<open>
  The queue is the cache named \<^verbatim>\<open>offline-actions\<close>: the key of an entry is the queued
  request's URL, the body of its response the queued payload. \<open>parse\<close> stands for
  \<^verbatim>\<open>response.json()\<close> (\<open>None\<close> when the body is not JSON) and \<open>stringify\<close> for
  \<^verbatim>\<open>JSON.stringify\<close>.

  One turn of the loop body's inner \<^verbatim>\<open>try\<close>, for the request \<open>u\<close>, resubmitting to
  \<open>target\<close>: \<open>Inl\<close> is the error the inner \<^verbatim>\<open>catch\<close> logs.
\<close>

definition resubmit ::
  "(string \<Rightarrow> 'j option) \<Rightarrow> ('j \<Rightarrow> string) \<Rightarrow> (request \<Rightarrow> response option) \<Rightarrow> string \<Rightarrow> world
     \<Rightarrow> string \<Rightarrow> (js_error + unit) \<times> world" where
  "resubmit parse stringify net target w u =
     (case cache_match (cache_named (caches w) ''offline-actions'') (request_of u) of
        None \<Rightarrow> (Inl TypeError, w)
      | Some response \<Rightarrow>
          (case parse (body response) of
             None \<Rightarrow> (Inl SyntaxError, w)
           | Some data \<Rightarrow>
               (case await_fetch net w
                       \<lparr>req_method = ''POST'', url = target,
                        req_headers = [(''Content-Type'', ''application/json'')],
                        req_body = stringify data\<rparr> of
                  (None, w1) \<Rightarrow> (Inl TypeError, w1)
                | (Some answer, w1) \<Rightarrow>
                    (Inr (),
                     w1\<lparr>caches := update_named (caches w1) ''offline-actions''
                                     (\<lambda>c. cache_delete c u)\<rparr>))))"

text \<open>The \<^verbatim>\<open>for (const request of requests)\<close> loop of \<^verbatim>\<open>syncAlerts\<close> (lines 254-274).\<close>

fun alerts_loop ::
  "(string \<Rightarrow> 'j option) \<Rightarrow> ('j \<Rightarrow> string) \<Rightarrow> (request \<Rightarrow> response option) \<Rightarrow> string \<Rightarrow> string list
     \<Rightarrow> world \<Rightarrow> world" where
  "alerts_loop parse stringify net origin [] w = w"
| "alerts_loop parse stringify net origin (u # us) w =
     alerts_loop parse stringify net origin us
       (if str_includes u ''/alerts''
        then snd (resubmit parse stringify net (resolve origin ''/api/alerts'') w u)
        else w)"

definition syncAlerts ::
  "(string \<Rightarrow> 'j option) \<Rightarrow> ('j \<Rightarrow> string) \<Rightarrow> (request \<Rightarrow> response option) \<Rightarrow> string \<Rightarrow> world
     \<Rightarrow> world" where
  "syncAlerts parse stringify net origin w =
     (let w1 = w\<lparr>caches := caches_open (caches w) ''offline-actions''\<rparr>;
          requests = cache_keys (cache_named (caches w1) ''offline-actions'')
      in alerts_loop parse stringify net origin requests w1)"

text \<open>The loop of \<^verbatim>\<open>syncSightings\<close> (lines 286-306): it resubmits to \<^verbatim>\<open>request.url\<close>.\<close>

fun sightings_loop ::
  "(string \<Rightarrow> 'j option) \<Rightarrow> ('j \<Rightarrow> string) \<Rightarrow> (request \<Rightarrow> response option) \<Rightarrow> string list
     \<Rightarrow> world \<Rightarrow> world" where
  "sightings_loop parse stringify net [] w = w"
| "sightings_loop parse stringify net (u # us) w =
     sightings_loop parse stringify net us
       (if str_includes u ''/sightings''
        then snd (resubmit parse stringify net u w u)
        else w)"

definition syncSightings ::
  "(string \<Rightarrow> 'j option) \<Rightarrow> ('j \<Rightarrow> string) \<Rightarrow> (request \<Rightarrow> response option) \<Rightarrow> world \<Rightarrow> world" where
  "syncSightings parse stringify net w =
     (let w1 = w\<lparr>caches := caches_open (caches w) ''offline-actions''\<rparr>;
          requests = cache_keys (cache_named (caches w1) ''offline-actions'')
      in sightings_loop parse stringify net requests w1)"

text \<open>The sync listener (lines 238-246).\<close>

definition sync_listener ::
  "(string \<Rightarrow> 'j option) \<Rightarrow> ('j \<Rightarrow> string) \<Rightarrow> (request \<Rightarrow> response option) \<Rightarrow> string \<Rightarrow> world
     \<Rightarrow> string \<Rightarrow> world" where
  "sync_listener parse stringify net origin w tag =
     (let w1 = (if tag = ''sync-alerts'' then syncAlerts parse stringify net origin w else w)
      in if tag = ''sync-sightings'' then syncSightings parse stringify net w1 else w1)"

subsection \<open>Push notifications\<close>

type_synonym data_bag = "(string \<times> string) list"

text \<open>The parsed push payload \<^verbatim>\<open>{title?, body?, tag?, data?}\<close>.\<close>

record push_payload =
  payload_title :: "string option"
  payload_body :: "string option"
  payload_tag :: "string option"
  payload_data :: "data_bag option"

record notification =
  title :: string
  note_body :: string
  icon :: string
  badge :: string
  vibrate :: "nat list"
  tag :: string
  note_data :: data_bag
  actions :: "(string \<times> string) list"

definition empty_payload :: push_payload where
  "empty_payload =
     \<lparr>payload_title = None, payload_body = None, payload_tag = None, payload_data = None\<rparr>"

definition showNotification :: "push_payload \<Rightarrow> notification" where
  "showNotification d =
     \<lparr>title = js_or (payload_title d) ''CarTrace Pro'',
      note_body = js_or (payload_body d) ''New stolen vehicle alert'',
      icon = ''/icon-192.png'',
      badge = ''/badge-72.png'',
      vibrate = [200, 100, 200],
      tag = js_or (payload_tag d) ''general'',
      note_data = (case payload_data d of None \<Rightarrow> [] | Some bag \<Rightarrow> bag),
      actions = [(''view'', ''View Alert''), (''close'', ''Dismiss'')]\<rparr>"

text \<open>
  The push listener (lines 313-333). \<open>event_data\<close> is \<open>None\<close> when the push carries no
  payload (\<^verbatim>\<open>event.data\<close> is null); otherwise it is what \<^verbatim>\<open>event.data.json()\<close> gives: the
  parsed payload, or the SyntaxError it throws. The result is the notification displayed.
\<close>

definition push_listener :: "(js_error + push_payload) option \<Rightarrow> js_error + notification" where
  "push_listener event_data =
     (case event_data of
        None \<Rightarrow> Inr (showNotification empty_payload)
      | Some (Inl e) \<Rightarrow> Inl e
      | Some (Inr d) \<Rightarrow> Inr (showNotification d))"

record client =
  client_url :: string
  focusable :: bool

datatype window_action = Focus client | OpenWindow string | NoAction

fun focus_or_open :: "client list \<Rightarrow> bool \<Rightarrow> string \<Rightarrow> window_action" where
  "focus_or_open [] can_open urlToOpen = (if can_open then OpenWindow urlToOpen else NoAction)"
| "focus_or_open (c # cs) can_open urlToOpen =
     (if client_url c = urlToOpen \<and> focusable c then Focus c
      else focus_or_open cs can_open urlToOpen)"

text \<open>
  The notificationclick listener (lines 336-358). \<open>action\<close> is \<^verbatim>\<open>event.action\<close> (the empty
  string when the notification itself was clicked), \<open>bag\<close> is
  \<^verbatim>\<open>event.notification.data\<close>, \<open>clientList\<close> the windows \<^verbatim>\<open>clients.matchAll\<close> finds, and
  \<open>can_open\<close> whether \<^verbatim>\<open>clients.openWindow\<close> exists. The result says whether the
  notification was closed and what was done to a window.
\<close>

definition notificationclick :: "string \<Rightarrow> data_bag \<Rightarrow> client list \<Rightarrow> bool \<Rightarrow> bool \<times> window_action" where
  "notificationclick action bag clientList can_open =
     (True,
      if action = ''view''
      then focus_or_open clientList can_open (js_or (map_of bag ''url'') ''/dashboard.html'')
      else NoAction)"

section \<open>Notions for the statements\<close>

text \<open>The response stored in the cache \<open>name\<close> under the URL \<open>u\<close>.\<close>

definition entry_of :: "world \<Rightarrow> string \<Rightarrow> string \<Rightarrow> response option" where
  "entry_of w name u = map_of (cache_named (caches w) name) u"

text \<open>The content of the Offline Action Queue.\<close>

definition queue :: "world \<Rightarrow> cache" where
  "queue w = cache_named (caches w) ''offline-actions''"

text \<open>
  The two loops of the background sync differ in the category they select and in the URL
  they resubmit to; for the proofs both are instances of one loop with these two as
  parameters.
\<close>

fun drain_loop ::
  "(string \<Rightarrow> 'j option) \<Rightarrow> ('j \<Rightarrow> string) \<Rightarrow> (request \<Rightarrow> response option) \<Rightarrow> string
     \<Rightarrow> (string \<Rightarrow> string) \<Rightarrow> string list \<Rightarrow> world \<Rightarrow> world" where
  "drain_loop parse stringify net pat target [] w = w"
| "drain_loop parse stringify net pat target (u # us) w =
     drain_loop parse stringify net pat target us
       (if str_includes u pat
        then snd (resubmit parse stringify net (target u) w u)
        else w)"

text \<open>
  For stating what a drain does: the request a drain of the category \<open>pat\<close> sends for the
  queue entry \<open>e\<close>, if any (none for an entry of another category, or whose payload does not
  parse), and whether such a request stays undelivered, that is: none was sent, or its
  fetch was rejected.
\<close>

definition planned ::
  "(string \<Rightarrow> 'j option) \<Rightarrow> ('j \<Rightarrow> string) \<Rightarrow> string \<Rightarrow> (string \<Rightarrow> string)
     \<Rightarrow> string \<times> response \<Rightarrow> request option" where
  "planned parse stringify pat target e =
     (if str_includes (fst e) pat
      then map_option
             (\<lambda>data. \<lparr>req_method = ''POST'', url = target (fst e),
                      req_headers = [(''Content-Type'', ''application/json'')],
                      req_body = stringify data\<rparr>)
             (parse (body (snd e)))
      else None)"

definition undelivered :: "(request \<Rightarrow> response option) \<Rightarrow> request option \<Rightarrow> bool" where
  "undelivered net p = (case p of None \<Rightarrow> True | Some r \<Rightarrow> net r = None)"

section \<open>Example inputs\<close>

text \<open>The worker's origin, the pathname of a URL of that origin, and a request to it.\<close>

definition ex_origin :: string where
  "ex_origin = ''https://cartrace.example''"

definition ex_pathname :: "string \<Rightarrow> string" where
  "ex_pathname u = drop (length ex_origin) u"

definition ex_request :: "string \<Rightarrow> string \<Rightarrow> header_list \<Rightarrow> request" where
  "ex_request m path hs = \<lparr>req_method = m, url = ex_origin @ path, req_headers = hs, req_body = []\<rparr>"

text \<open>A report of a stolen vehicle, posted by the page.\<close>

definition ex_alert_post :: request where
  \<open>ex_alert_post =
     \<lparr>req_method = ''POST'', url = ex_origin @ ''/api/alerts'',
      req_headers = [(''Accept'', ''application/json''), (''Content-Type'', ''application/json'')],
      req_body = ''{"plate":"CA 123-456"}''\<rparr>\<close>

text \<open>Responses of the server.\<close>

definition ex_stats :: response where
  "ex_stats = \<lparr>status = 200, statusText = ''OK'',
                headers = [(''Content-Type'', ''application/json'')], body = ''[1,2,3]''\<rparr>"

definition ex_page_old :: response where
  "ex_page_old = \<lparr>status = 200, statusText = ''OK'', headers = [], body = ''<html>old</html>''\<rparr>"

definition ex_page_new :: response where
  "ex_page_new = \<lparr>status = 200, statusText = ''OK'', headers = [], body = ''<html>new</html>''\<rparr>"

definition ex_page_gzip :: response where
  "ex_page_gzip = \<lparr>status = 200, statusText = ''OK'', headers = [(''Vary'', ''Accept-Encoding'')],
                   body = ''<html>new</html>''\<rparr>"

definition ex_page_vary :: response where
  "ex_page_vary = \<lparr>status = 200, statusText = ''OK'', headers = [(''Vary'', ''*'')],
                   body = ''<html>new</html>''\<rparr>"

definition ex_not_found :: response where
  "ex_not_found = \<lparr>status = 404, statusText = ''Not Found'', headers = [], body = ''gone''\<rparr>"

text \<open>
  Networks: one that is down, one that answers every request with the new page, two that
  answer with the new page and a \<^verbatim>\<open>Vary\<close> header, one that answers every request with 404,
  one on which only the fetch of \<^verbatim>\<open>/about.html\<close> fails, and one that loses every request to
  a sightings URL.
\<close>

definition net_gzip :: "request \<Rightarrow> response option" where
  "net_gzip r = Some ex_page_gzip"

definition net_vary :: "request \<Rightarrow> response option" where
  "net_vary r = Some ex_page_vary"

definition net_down :: "request \<Rightarrow> response option" where
  "net_down r = None"

definition net_up :: "request \<Rightarrow> response option" where
  "net_up r = Some ex_page_new"

definition net_404 :: "request \<Rightarrow> response option" where
  "net_404 r = Some ex_not_found"

definition net_partial :: "request \<Rightarrow> response option" where
  "net_partial r = (if url r = ex_origin @ ''/about.html'' then None else Some ex_page_new)"

definition net_no_sightings :: "request \<Rightarrow> response option" where
  "net_no_sightings r = (if str_includes (url r) ''/sightings'' then None else Some ex_page_new)"

text \<open>
  States of the worker: nothing cached; two generations of caches, of an older version
  and of the current one; a cached answer of the statistics endpoint; a cached index
  page.
\<close>

definition empty_world :: world where
  "empty_world = \<lparr>caches = [], fetches = [], awaited = [], skipWaiting_called = False, clients_claimed = False\<rparr>"

definition ex_generations :: world where
  "ex_generations =
     \<lparr>caches = [(''cartrace-pro-cartrace-v0.9.0'', []), (''cartrace-pro-cartrace-v0.9.0-api'', []),
                (''cartrace-pro-cartrace-v1.0.0'', []), (''cartrace-pro-cartrace-v1.0.0-api'', [])],
      fetches = [], awaited = [], skipWaiting_called = False, clients_claimed = False\<rparr>"

definition ex_api_world :: world where
  "ex_api_world = empty_world\<lparr>caches := [(API_CACHE_NAME, [(ex_origin @ ''/api/statistics'', ex_stats)])]\<rparr>"

definition ex_static_world :: world where
  "ex_static_world = empty_world\<lparr>caches := [(CACHE_NAME, [(ex_origin @ ''/index.html'', ex_page_old)])]\<rparr>"

text \<open>A message asking to clear a cache without naming one.\<close>

definition ex_clear :: message_data where
  "ex_clear = \<lparr>msg_type = ''CLEAR_CACHE'', msg_urls = None, msg_cacheName = None\<rparr>"

text \<open>An open window of the application.\<close>

definition ex_dashboard_client :: client where
  "ex_dashboard_client = \<lparr>client_url = ''/dashboard.html'', focusable = True\<rparr>"

text \<open>
  A queue of two alerts and a sighting between them. In the examples a payload counts as
  JSON when it is not empty, and is serialised as it is.
\<close>

definition ex_parse :: "string \<Rightarrow> string option" where
  "ex_parse s = (if s = [] then None else Some s)"

definition ex_stringify :: "string \<Rightarrow> string" where
  "ex_stringify d = d"

definition ex_payload :: "string \<Rightarrow> response" where
  "ex_payload b = \<lparr>status = 200, statusText = ''OK'', headers = [], body = b\<rparr>"

definition ex_queue_world :: world where
  "ex_queue_world =
     empty_world\<lparr>caches :=
       [(''offline-actions'',
         [(ex_origin @ ''/api/alerts?n=1'', ex_payload ''[101]''),
          (ex_origin @ ''/api/sightings?n=1'', ex_payload ''[102]''),
          (ex_origin @ ''/api/alerts?n=2'', ex_payload ''[103]'')])]\<rparr>"

section \<open>Properties\<close>

subsection \<open>The cache store\<close>


lemma map_of_filter_fst:
  "map_of (filter (\<lambda>e. fst e \<noteq> k) c) u = (if u = k then None else map_of c u)"
  by (induction c) auto

lemma map_of_cache_store:
  "map_of (cache_store c k v) u = (if u = k then Some v else map_of c u)"
  by (simp add: cache_store_def map_of_filter_fst map_add_def split: option.splits)

lemma map_of_cache_put:
  "put_accepts r resp \<Longrightarrow>
   map_of (cache_put c r resp) u = (if u = url r then Some resp else map_of c u)"
  by (simp add: cache_put_def map_of_cache_store)

lemma cache_put_refused: "\<not> put_accepts r resp \<Longrightarrow> cache_put c r resp = c"
  by (simp add: cache_put_def)

lemma map_of_caches_open:
  "map_of (caches_open cs n) m = (if m = n \<and> map_of cs n = None then Some [] else map_of cs m)"
proof (cases "n \<in> set (map fst cs)")
  case True
  then have "map_of cs n \<noteq> None" by (simp add: map_of_eq_None_iff)
  with True show ?thesis by (simp add: caches_open_def)
next
  case False
  then have "map_of cs n = None" by (simp add: map_of_eq_None_iff)
  with False show ?thesis by (simp add: caches_open_def map_add_def split: option.splits)
qed

lemma cache_named_open: "cache_named (caches_open cs n) m = cache_named cs m"
  by (simp add: cache_named_def map_of_caches_open)

lemma map_of_update_named:
  "map_of (update_named cs n f) m = (if m = n then map_option f (map_of cs n) else map_of cs m)"
  unfolding update_named_def by (induction cs) auto

lemma cache_named_update:
  "cache_named (update_named cs n f) m =
     (if m = n then (case map_of cs n of None \<Rightarrow> [] | Some c \<Rightarrow> f c) else cache_named cs m)"
  by (simp add: cache_named_def map_of_update_named split: option.splits)

subsection \<open>Deleting caches\<close>

lemma fold_caches_delete:
  "fold (\<lambda>name cs. caches_delete cs name) ns cs = filter (\<lambda>e. fst e \<notin> set ns) cs"
  by (induction ns arbitrary: cs) (auto simp: caches_delete_def intro: filter_cong)

lemma caches_activate: "caches (activate w) = filter (\<lambda>e. \<not> stale (fst e)) (caches w)"
  by (auto simp: activate_def fold_caches_delete caches_keys_def intro: filter_cong)

lemma not_stale_current: "\<not> stale CACHE_NAME" "\<not> stale API_CACHE_NAME"
  by (simp_all add: stale_def)

subsection \<open>Activate\<close>

text \<open>
  Claim C6. On activate, every cache whose name starts with the product prefix
  \<^verbatim>\<open>cartrace-\<close> and is neither \<^verbatim>\<open>CACHE_NAME\<close> nor \<^verbatim>\<open>API_CACHE_NAME\<close> is deleted; the two
  current caches are retained with their entries, as is every cache without the prefix;
  no cache is added, and the clients are claimed.
\<close>

theorem activate_evicts_stale_generations:
  "(\<forall>n. startsWith n ''cartrace-'' \<and> n \<noteq> CACHE_NAME \<and> n \<noteq> API_CACHE_NAME
         \<longrightarrow> n \<notin> set (caches_keys (caches (activate w))))
   \<and> (\<forall>e \<in> set (caches w). fst e = CACHE_NAME \<or> fst e = API_CACHE_NAME
         \<longrightarrow> e \<in> set (caches (activate w)))
   \<and> (\<forall>e \<in> set (caches w). \<not> startsWith (fst e) ''cartrace-'' \<longrightarrow> e \<in> set (caches (activate w)))
   \<and> set (caches (activate w)) \<subseteq> set (caches w)
   \<and> clients_claimed (activate w)"
proof -
  have c: "caches (activate w) = filter (\<lambda>e. \<not> stale (fst e)) (caches w)"
    by (rule caches_activate)
  have 1: "\<forall>n. startsWith n ''cartrace-'' \<and> n \<noteq> CACHE_NAME \<and> n \<noteq> API_CACHE_NAME
         \<longrightarrow> n \<notin> set (caches_keys (caches (activate w)))"
    unfolding c caches_keys_def by (auto simp: stale_def)
  have 2: "\<forall>e \<in> set (caches w). fst e = CACHE_NAME \<or> fst e = API_CACHE_NAME
         \<longrightarrow> e \<in> set (caches (activate w))"
    unfolding c using not_stale_current by auto
  have 3: "\<forall>e \<in> set (caches w). \<not> startsWith (fst e) ''cartrace-'' \<longrightarrow> e \<in> set (caches (activate w))"
    unfolding c by (auto simp: stale_def)
  have 4: "set (caches (activate w)) \<subseteq> set (caches w)"
    unfolding c by auto
  have 5: "clients_claimed (activate w)" by (simp add: activate_def)
  from 1 2 3 4 5 show ?thesis by blast
qed


text \<open>
  With the caches of version 0.9.0 and of the current version 1.0.0 present, only the two
  current ones remain after activation.
\<close>

theorem activate_evicts_stale_generations_witness:
  "caches_keys (caches ex_generations) =
      [''cartrace-pro-cartrace-v0.9.0'', ''cartrace-pro-cartrace-v0.9.0-api'', CACHE_NAME, API_CACHE_NAME]
   \<and> ''cartrace-pro-cartrace-v0.9.0'' \<notin> set (caches_keys (caches (activate ex_generations)))
   \<and> ''cartrace-pro-cartrace-v0.9.0-api'' \<notin> set (caches_keys (caches (activate ex_generations)))
   \<and> (CACHE_NAME, []) \<in> set (caches (activate ex_generations))
   \<and> (API_CACHE_NAME, []) \<in> set (caches (activate ex_generations))"
  using activate_evicts_stale_generations [of ex_generations]
  by (simp add: ex_generations_def caches_keys_def CACHE_NAME_def API_CACHE_NAME_def CACHE_VERSION_def startsWith_def)

subsection \<open>Clearing a cache on request\<close>

text \<open>
  Claim C10. A \<^verbatim>\<open>CLEAR_CACHE\<close> message that names no cache deletes the current static cache
  \<^verbatim>\<open>CACHE_NAME\<close>: afterwards no cache of that name exists, and every other cache is kept
  as it was.
\<close>

theorem clear_cache_defaults_to_current:
  "msg_type d = ''CLEAR_CACHE'' \<and> msg_cacheName d = None \<longrightarrow>
     message_listener net origin w d = w\<lparr>caches := caches_delete (caches w) CACHE_NAME\<rparr>
     \<and> CACHE_NAME \<notin> set (caches_keys (caches (message_listener net origin w d)))
     \<and> (\<forall>e \<in> set (caches w). fst e \<noteq> CACHE_NAME \<longrightarrow>
           e \<in> set (caches (message_listener net origin w d)))"
  by (auto simp: message_listener_def caches_delete_def caches_keys_def)

text \<open>Clearing with no name among two generations of caches removes the current static
  cache only.\<close>

theorem clear_cache_defaults_to_current_witness:
  "msg_type ex_clear = ''CLEAR_CACHE'' \<and> msg_cacheName ex_clear = None
   \<and> caches_keys (caches ex_generations) =
        [''cartrace-pro-cartrace-v0.9.0'', ''cartrace-pro-cartrace-v0.9.0-api'', CACHE_NAME, API_CACHE_NAME]
   \<and> caches_keys (caches (message_listener net_down ex_origin ex_generations ex_clear)) =
        [''cartrace-pro-cartrace-v0.9.0'', ''cartrace-pro-cartrace-v0.9.0-api'', API_CACHE_NAME]"
  using clear_cache_defaults_to_current [of ex_clear net_down ex_origin ex_generations]
  by (simp add: ex_clear_def ex_generations_def caches_keys_def caches_delete_def CACHE_NAME_def
        API_CACHE_NAME_def CACHE_VERSION_def)

subsection \<open>API reads while offline\<close>

lemma headers_get_set:
  "headers_get (headers_set hs n v) m = (if m = n then Some v else headers_get hs m)"
  by (induction hs n v rule: headers_set.induct) (auto simp: headers_get_def map_of_filter_fst)

text \<open>
  Claim C4. For a GET under \<^verbatim>\<open>/api/\<close> whose network fetch fails: with no entry in the API
  cache the handler answers with status 503, the header
  \<^verbatim>\<open>Content-Type: application/json\<close> and, as body, the JSON text of the object with
  \<^verbatim>\<open>error\<close> the string \<^verbatim>\<open>Offline\<close>, \<^verbatim>\<open>message\<close> a string and \<^verbatim>\<open>cached\<close> false; with an entry
  (whose status the Response constructor accepts, 200..599; the worker itself stores
  only status 200) it answers with the cached body, status and status text, the header
  \<^verbatim>\<open>X-Offline-Response: true\<close> set, and every other header as cached.
\<close>

theorem api_read_offline_fallback:
  \<open>req_method request = ''GET'' \<and> startsWith (pathname_of (url request)) ''/api/''
     \<and> net request = None \<longrightarrow>
   (cache_match (cache_named (caches w) API_CACHE_NAME) request = None \<longrightarrow>
      fst (fetch_listener pathname_of net origin w request) =
        Inr (Some \<lparr>status = 503, statusText = [],
                   headers = [(''Content-Type'', ''application/json'')],
                   body = ''{"error":"Offline","message":"Unable to fetch data while offline","cached":false}''\<rparr>))
   \<and> (\<forall>c. cache_match (cache_named (caches w) API_CACHE_NAME) request = Some c
            \<and> 200 \<le> status c \<and> status c \<le> 599 \<longrightarrow>
          (\<exists>r. fst (fetch_listener pathname_of net origin w request) = Inr (Some r)
               \<and> body r = body c \<and> status r = status c \<and> statusText r = statusText c
               \<and> headers_get (headers r) ''X-Offline-Response'' = Some ''true''
               \<and> (\<forall>n. n \<noteq> ''X-Offline-Response'' \<longrightarrow>
                      headers_get (headers r) n = headers_get (headers c) n)))\<close>
  by (auto simp: fetch_listener_def apiNetworkFirst_def await_fetch_def cache_named_open
      new_Response_def responding_def headers_get_set Let_def)

text \<open>The statistics endpoint read offline, once with an empty store and once with a cached
  answer.\<close>

theorem api_read_offline_fallback_witness:
  \<open>req_method (ex_request ''GET'' ''/api/statistics'' []) = ''GET''
   \<and> startsWith (ex_pathname (url (ex_request ''GET'' ''/api/statistics'' []))) ''/api/''
   \<and> net_down (ex_request ''GET'' ''/api/statistics'' []) = None
   \<and> cache_match (cache_named (caches empty_world) API_CACHE_NAME)
        (ex_request ''GET'' ''/api/statistics'' []) = None
   \<and> fst (fetch_listener ex_pathname net_down ex_origin empty_world
             (ex_request ''GET'' ''/api/statistics'' [])) =
        Inr (Some \<lparr>status = 503, statusText = [],
                   headers = [(''Content-Type'', ''application/json'')],
                   body = ''{"error":"Offline","message":"Unable to fetch data while offline","cached":false}''\<rparr>)
   \<and> cache_match (cache_named (caches ex_api_world) API_CACHE_NAME)
        (ex_request ''GET'' ''/api/statistics'' []) = Some ex_stats
   \<and> fst (fetch_listener ex_pathname net_down ex_origin ex_api_world
             (ex_request ''GET'' ''/api/statistics'' [])) =
        Inr (Some \<lparr>status = 200, statusText = ''OK'',
                   headers = [(''Content-Type'', ''application/json''),
                              (''X-Offline-Response'', ''true'')],
                   body = ''[1,2,3]''\<rparr>)\<close>
  using api_read_offline_fallback [of "ex_request ''GET'' ''/api/statistics'' []" ex_pathname
      net_down empty_world ex_origin]
    api_read_offline_fallback [of "ex_request ''GET'' ''/api/statistics'' []" ex_pathname
      net_down ex_api_world ex_origin]
  by (simp add: ex_request_def ex_pathname_def ex_origin_def net_down_def empty_world_def
      ex_api_world_def ex_stats_def startsWith_def cache_match_def cache_named_def
      fetch_listener_def apiNetworkFirst_def await_fetch_def caches_open_def new_Response_def
      responding_def API_CACHE_NAME_def CACHE_NAME_def CACHE_VERSION_def Let_def)

subsection \<open>Cache-first on a hit\<close>

lemma hit_has_cache:
  "cache_match (cache_named cs name) r = Some c \<Longrightarrow> map_of cs name \<noteq> None \<and> req_method r = ''GET''"
  by (auto simp: cache_named_def cache_match_def split: option.splits if_splits)

lemma caches_open_present: "map_of cs name \<noteq> None \<Longrightarrow> caches_open cs name = cs"
  by (auto simp: caches_open_def map_of_eq_None_iff)

lemma ex_vary:
  "vary_star ex_page_vary" "\<not> vary_star ex_page_gzip" "\<not> vary_star ex_page_new"
  "\<not> vary_star ex_page_old"
  by (simp_all add: vary_star_def ex_page_vary_def ex_page_gzip_def ex_page_new_def
      ex_page_old_def toLowerCase_def lower_char_def trim_def blank_def)

lemma ex_request_simps:
  "req_method (ex_request m path hs) = m" "url (ex_request m path hs) = ex_origin @ path"
  "req_headers (ex_request m path hs) = hs"
  by (simp_all add: ex_request_def)

lemma ex_index_http: "http_scheme (url (ex_request ''GET'' ''/index.html'' []))"
  by (simp add: http_scheme_def ex_request_def ex_origin_def startsWith_def)

lemma update_named_refused:
  "\<not> put_accepts r resp \<Longrightarrow> update_named cs name (\<lambda>c. cache_put c r resp) = cs"
  by (simp add: cache_put_refused update_named_def split_def)

text \<open>Cache-first on a hit, in one equation.\<close>

lemma cacheFirst_hit:
  assumes hit: "cache_match (cache_named (caches w) CACHE_NAME) request = Some c"
  shows "cacheFirst net w request =
           (Inr (Some c),
            case net request of
              None \<Rightarrow> w\<lparr>fetches := fetches w @ [request]\<rparr>
            | Some r \<Rightarrow>
                if status r = 200
                then put_in (w\<lparr>fetches := fetches w @ [request]\<rparr>) CACHE_NAME request r
                else w\<lparr>fetches := fetches w @ [request]\<rparr>)"
proof -
  from hit_has_cache [OF hit] have "map_of (caches w) CACHE_NAME \<noteq> None" by simp
  then have op: "caches_open (caches w) CACHE_NAME = caches w" by (rule caches_open_present)
  show ?thesis
    using hit by (simp add: cacheFirst_def op fetch_def split: option.splits)
qed

lemma cacheFirst_hit_refused:
  assumes hit: "cache_match (cache_named (caches w) CACHE_NAME) request = Some c"
    and net: "net request = Some r" and ref: "\<not> put_accepts request r"
  shows "caches (snd (cacheFirst net w request)) = caches w"
  using net by (simp add: cacheFirst_hit [OF hit] put_in_def update_named_refused [OF ref])

text \<open>On a miss, cache-first awaits the fetch.\<close>

lemma cacheFirst_miss_awaits:
  "cache_match (cache_named (caches w) CACHE_NAME) request = None \<Longrightarrow>
     awaited (snd (cacheFirst net w request)) = awaited w @ [request]"
  by (simp add: cacheFirst_def cache_named_open await_fetch_def put_in_def Let_def
      split: option.splits)

text \<open>
  Claim C5, as amended. When the static cache holds an entry for the request, cache-first
  settles with that entry whatever the network does and without awaiting any fetch; it
  starts exactly one fetch, of the request itself. A status-200 answer to it overwrites
  the entry (the request being over http(s), as the requests of a cache are), unless the
  answer carries \<^verbatim>\<open>Vary: *\<close>: then, as when the fetch fails or answers with another status,
  the store is left as it was.
\<close>

theorem cacheFirst_hit_revalidates_once:
  "cache_match (cache_named (caches w) CACHE_NAME) request = Some c \<longrightarrow>
     (\<forall>net'. fst (cacheFirst net' w request) = Inr (Some c))
     \<and> awaited (snd (cacheFirst net w request)) = awaited w
     \<and> fetches (snd (cacheFirst net w request)) = fetches w @ [request]
     \<and> (\<forall>r. net request = Some r \<and> status r = 200 \<and> \<not> vary_star r
              \<and> http_scheme (url request) \<longrightarrow>
           cache_match (cache_named (caches (snd (cacheFirst net w request))) CACHE_NAME) request
             = Some r)
     \<and> (net request = None \<or> (\<exists>r. net request = Some r \<and> (status r \<noteq> 200 \<or> vary_star r)) \<longrightarrow>
           caches (snd (cacheFirst net w request)) = caches w)"
proof
  assume hit: "cache_match (cache_named (caches w) CACHE_NAME) request = Some c"
  from hit_has_cache [OF hit] have pres: "map_of (caches w) CACHE_NAME \<noteq> None"
    and get: "req_method request = ''GET''" by simp_all
  note eq = cacheFirst_hit [OF hit]
  have 1: "\<forall>net'. fst (cacheFirst net' w request) = Inr (Some c)"
    by (simp add: eq)
  have 2: "awaited (snd (cacheFirst net w request)) = awaited w"
    by (simp add: eq put_in_def split: option.splits)
  have 3: "fetches (snd (cacheFirst net w request)) = fetches w @ [request]"
    by (simp add: eq put_in_def split: option.splits)
  have 4: "\<forall>r. net request = Some r \<and> status r = 200 \<and> \<not> vary_star r
              \<and> http_scheme (url request) \<longrightarrow>
           cache_match (cache_named (caches (snd (cacheFirst net w request))) CACHE_NAME) request
             = Some r"
  proof (intro allI impI)
    fix r assume a: "net request = Some r \<and> status r = 200 \<and> \<not> vary_star r
              \<and> http_scheme (url request)"
    with get have acc: "put_accepts request r" by (simp add: put_accepts_def)
    from a pres get show "cache_match (cache_named (caches (snd (cacheFirst net w request)))
             CACHE_NAME) request = Some r"
      by (auto simp: eq put_in_def cache_named_update cache_match_def map_of_cache_put [OF acc])
  qed
  have 5: "net request = None \<or> (\<exists>r. net request = Some r \<and> (status r \<noteq> 200 \<or> vary_star r)) \<longrightarrow>
           caches (snd (cacheFirst net w request)) = caches w"
  proof (cases "net request")
    case None
    then show ?thesis by (simp add: eq)
  next
    case (Some r)
    show ?thesis
    proof (cases "status r = 200")
      case False
      with Some show ?thesis by (simp add: eq)
    next
      case True
      show ?thesis
      proof
        assume "net request = None \<or> (\<exists>r. net request = Some r \<and> (status r \<noteq> 200 \<or> vary_star r))"
        with Some True have "vary_star r" by simp
        then have "\<not> put_accepts request r" by (simp add: put_accepts_def)
        then show "caches (snd (cacheFirst net w request)) = caches w"
          by (rule cacheFirst_hit_refused [where net = net, OF hit Some])
      qed
    qed
  qed
  from 1 2 3 4 5 show "(\<forall>net'. fst (cacheFirst net' w request) = Inr (Some c))
     \<and> awaited (snd (cacheFirst net w request)) = awaited w
     \<and> fetches (snd (cacheFirst net w request)) = fetches w @ [request]
     \<and> (\<forall>r. net request = Some r \<and> status r = 200 \<and> \<not> vary_star r
              \<and> http_scheme (url request) \<longrightarrow>
           cache_match (cache_named (caches (snd (cacheFirst net w request))) CACHE_NAME) request
             = Some r)
     \<and> (net request = None \<or> (\<exists>r. net request = Some r \<and> (status r \<noteq> 200 \<or> vary_star r)) \<longrightarrow>
           caches (snd (cacheFirst net w request)) = caches w)"
    by (intro conjI)
qed

text \<open>
  A cached index page is served as cached, online and offline, with no fetch awaited; it
  is replaced by the fresh page the network returns, also when that page varies on
  \<^verbatim>\<open>Accept-Encoding\<close>, and kept when the network is down.
\<close>

theorem cacheFirst_hit_revalidates_once_witness:
  "cache_match (cache_named (caches ex_static_world) CACHE_NAME)
       (ex_request ''GET'' ''/index.html'' []) = Some ex_page_old
   \<and> fst (cacheFirst net_gzip ex_static_world (ex_request ''GET'' ''/index.html'' [])) =
        Inr (Some ex_page_old)
   \<and> fst (cacheFirst net_down ex_static_world (ex_request ''GET'' ''/index.html'' [])) =
        Inr (Some ex_page_old)
   \<and> awaited (snd (cacheFirst net_gzip ex_static_world (ex_request ''GET'' ''/index.html'' []))) = []
   \<and> fetches (snd (cacheFirst net_gzip ex_static_world (ex_request ''GET'' ''/index.html'' []))) =
        [ex_request ''GET'' ''/index.html'' []]
   \<and> net_gzip (ex_request ''GET'' ''/index.html'' []) = Some ex_page_gzip
   \<and> status ex_page_gzip = 200
   \<and> cache_match
        (cache_named
           (caches (snd (cacheFirst net_gzip ex_static_world (ex_request ''GET'' ''/index.html'' []))))
           CACHE_NAME)
        (ex_request ''GET'' ''/index.html'' []) = Some ex_page_gzip
   \<and> caches (snd (cacheFirst net_down ex_static_world (ex_request ''GET'' ''/index.html'' []))) =
        caches ex_static_world"
proof -
  have hit: "cache_match (cache_named (caches ex_static_world) CACHE_NAME)
       (ex_request ''GET'' ''/index.html'' []) = Some ex_page_old"
    by (simp add: ex_static_world_def empty_world_def cache_named_def cache_match_def
        ex_request_def)
  have up: "net_gzip (ex_request ''GET'' ''/index.html'' []) = Some ex_page_gzip"
    by (simp add: net_gzip_def)
  have down: "net_down (ex_request ''GET'' ''/index.html'' []) = None"
    by (simp add: net_down_def)
  have st: "status ex_page_gzip = 200" by (simp add: ex_page_gzip_def)
  have fl: "fetches ex_static_world = []" "awaited ex_static_world = []"
    by (simp_all add: ex_static_world_def empty_world_def)
  from cacheFirst_hit_revalidates_once [of ex_static_world "ex_request ''GET'' ''/index.html'' []"
        ex_page_old net_gzip] hit up st fl ex_vary(2) ex_index_http
  have a: "fst (cacheFirst net_gzip ex_static_world (ex_request ''GET'' ''/index.html'' [])) =
        Inr (Some ex_page_old)
   \<and> fst (cacheFirst net_down ex_static_world (ex_request ''GET'' ''/index.html'' [])) =
        Inr (Some ex_page_old)
   \<and> awaited (snd (cacheFirst net_gzip ex_static_world (ex_request ''GET'' ''/index.html'' []))) = []
   \<and> fetches (snd (cacheFirst net_gzip ex_static_world (ex_request ''GET'' ''/index.html'' []))) =
        [ex_request ''GET'' ''/index.html'' []]
   \<and> cache_match
        (cache_named
           (caches (snd (cacheFirst net_gzip ex_static_world (ex_request ''GET'' ''/index.html'' []))))
           CACHE_NAME)
        (ex_request ''GET'' ''/index.html'' []) = Some ex_page_gzip"
    by simp
  from cacheFirst_hit_revalidates_once [of ex_static_world "ex_request ''GET'' ''/index.html'' []"
        ex_page_old net_down] hit down
  have b: "caches (snd (cacheFirst net_down ex_static_world (ex_request ''GET'' ''/index.html'' []))) =
        caches ex_static_world"
    by blast
  from hit up st a b show ?thesis by blast
qed

text \<open>
  Claim C5 as stated fails: the cached index page is revalidated, the network answers
  with status 200 and \<^verbatim>\<open>Vary: *\<close>, and the entry is still the old page.
\<close>

theorem cacheFirst_keeps_entry_on_vary_star:
  "cache_match (cache_named (caches ex_static_world) CACHE_NAME)
       (ex_request ''GET'' ''/index.html'' []) = Some ex_page_old
   \<and> net_vary (ex_request ''GET'' ''/index.html'' []) = Some ex_page_vary
   \<and> status ex_page_vary = 200
   \<and> headers ex_page_vary = [(''Vary'', ''*'')]
   \<and> cache_match
        (cache_named
           (caches (snd (cacheFirst net_vary ex_static_world (ex_request ''GET'' ''/index.html'' []))))
           CACHE_NAME)
        (ex_request ''GET'' ''/index.html'' []) = Some ex_page_old
   \<and> ex_page_old \<noteq> ex_page_vary"
proof -
  have hit: "cache_match (cache_named (caches ex_static_world) CACHE_NAME)
       (ex_request ''GET'' ''/index.html'' []) = Some ex_page_old"
    by (simp add: ex_static_world_def empty_world_def cache_named_def cache_match_def
        ex_request_def)
  have net: "net_vary (ex_request ''GET'' ''/index.html'' []) = Some ex_page_vary"
    by (simp add: net_vary_def)
  have r: "\<not> put_accepts (ex_request ''GET'' ''/index.html'' []) ex_page_vary"
    using ex_vary(1) by (simp add: put_accepts_def)
  have kept: "caches (snd (cacheFirst net_vary ex_static_world (ex_request ''GET'' ''/index.html'' [])))
                = caches ex_static_world"
    by (rule cacheFirst_hit_refused [where net = net_vary, OF hit net r])
  have st: "status ex_page_vary = 200" and hd: "headers ex_page_vary = [(''Vary'', ''*'')]"
    by (simp_all add: ex_page_vary_def)
  have "body ex_page_old \<noteq> body ex_page_vary"
    by (simp add: ex_page_vary_def ex_page_old_def)
  then have ne: "ex_page_old \<noteq> ex_page_vary" by auto
  from hit net st hd ne show ?thesis unfolding kept by (intro conjI)
qed

subsection \<open>What the strategies store\<close>

lemma entries_unchanged:
  assumes "caches w' = caches w \<or> caches w' = caches_open (caches w) n"
  shows "entry_of w' name u = entry_of w name u"
  using assms by (auto simp: entry_of_def cache_named_open)

lemma entries_put:
  assumes "caches w' = update_named (caches_open (caches w) n) n (\<lambda>c. cache_put c r y)"
  shows "entry_of w' name u =
           (if name = n \<and> u = url r \<and> put_accepts r y then Some y else entry_of w name u)"
proof (cases "put_accepts r y")
  case False
  then have "caches w' = caches_open (caches w) n"
    using assms by (simp add: update_named_refused)
  then have "entry_of w' name u = entry_of w name u"
    by (rule entries_unchanged [OF disjI2])
  with False show ?thesis by simp
next
  case True
  have "map_of (caches_open (caches w) n) n \<noteq> None"
    by (simp add: map_of_caches_open)
  then obtain c where c: "map_of (caches_open (caches w) n) n = Some c" by blast
  have "entry_of w' name u =
          (if name = n then map_of (cache_put c r y) u else map_of (cache_named (caches w) name) u)"
    by (simp add: entry_of_def assms cache_named_update c cache_named_open)
  moreover have "c = cache_named (caches w) n"
    using c by (simp add: cache_named_def map_of_caches_open split: if_splits option.splits)
  ultimately show ?thesis
    using True by (simp add: map_of_cache_put [OF True] entry_of_def)
qed

lemma cacheFirst_caches:
  "caches (snd (cacheFirst net w request)) =
     (case net request of
        None \<Rightarrow> caches_open (caches w) CACHE_NAME
      | Some y \<Rightarrow>
          if status y = 200
          then update_named (caches_open (caches w) CACHE_NAME) CACHE_NAME
                 (\<lambda>c. cache_put c request y)
          else caches_open (caches w) CACHE_NAME)"
  by (cases "net request")
    (simp_all add: cacheFirst_def fetch_def await_fetch_def put_in_def Let_def responding_def
      split: option.splits)

lemma networkFirst_caches:
  "caches (snd (networkFirst net origin w request)) =
     (case net request of
        None \<Rightarrow> caches (snd (networkFirst net origin w request))
      | Some y \<Rightarrow>
          if status y = 200
          then update_named (caches_open (caches w) CACHE_NAME) CACHE_NAME
                 (\<lambda>c. cache_put c request y)
          else caches w)"
  by (cases "net request")
    (simp_all add: networkFirst_def await_fetch_def put_in_def Let_def)

lemma networkFirst_caches_offline:
  "net request = None \<Longrightarrow>
     caches (snd (networkFirst net origin w request)) = caches w
     \<or> caches (snd (networkFirst net origin w request)) = caches_open (caches w) CACHE_NAME"
  by (simp add: networkFirst_def await_fetch_def Let_def responding_def split: option.splits)

lemma apiNetworkFirst_caches:
  "caches (snd (apiNetworkFirst net w request)) =
     (case net request of
        None \<Rightarrow> caches_open (caches w) API_CACHE_NAME
      | Some y \<Rightarrow>
          if status y = 200
          then update_named (caches_open (caches w) API_CACHE_NAME) API_CACHE_NAME
                 (\<lambda>c. cache_put c request y)
          else caches w)"
  by (cases "net request")
    (simp_all add: apiNetworkFirst_def await_fetch_def put_in_def Let_def responding_def
      split: option.splits)

lemma strategy_entries:
  assumes put: "\<And>y. net request = Some y \<Longrightarrow> status y = 200 \<Longrightarrow>
                  caches w' = update_named (caches_open (caches w) n) n (\<lambda>c. cache_put c request y)"
    and other: "\<not> (\<exists>y. net request = Some y \<and> status y = 200) \<Longrightarrow>
                  caches w' = caches w \<or> caches w' = caches_open (caches w) n"
  shows "entry_of w' name u =
     (if name = n \<and> u = url request
         \<and> (\<exists>y. net request = Some y \<and> status y = 200 \<and> put_accepts request y)
      then net request else entry_of w name u)"
proof (cases "\<exists>y. net request = Some y \<and> status y = 200")
  case False
  from other [OF False] have "entry_of w' name u = entry_of w name u"
    by (rule entries_unchanged)
  with False show ?thesis by auto
next
  case True
  then obtain y where y: "net request = Some y" "status y = 200" by blast
  from entries_put [OF put [OF y]] y show ?thesis by simp
qed

lemma cacheFirst_entries:
  "entry_of (snd (cacheFirst net w request)) name u =
     (if name = CACHE_NAME \<and> u = url request
         \<and> (\<exists>y. net request = Some y \<and> status y = 200 \<and> put_accepts request y)
      then net request else entry_of w name u)"
proof (rule strategy_entries)
  fix y assume "net request = Some y" "status y = 200"
  then show "caches (snd (cacheFirst net w request)) =
      update_named (caches_open (caches w) CACHE_NAME) CACHE_NAME (\<lambda>c. cache_put c request y)"
    by (simp add: cacheFirst_caches)
next
  assume "\<not> (\<exists>y. net request = Some y \<and> status y = 200)"
  then show "caches (snd (cacheFirst net w request)) = caches w
      \<or> caches (snd (cacheFirst net w request)) = caches_open (caches w) CACHE_NAME"
    by (cases "net request") (simp_all add: cacheFirst_caches)
qed

lemma networkFirst_entries:
  "entry_of (snd (networkFirst net origin w request)) name u =
     (if name = CACHE_NAME \<and> u = url request
         \<and> (\<exists>y. net request = Some y \<and> status y = 200 \<and> put_accepts request y)
      then net request else entry_of w name u)"
proof (rule strategy_entries)
  fix y assume y: "net request = Some y" "status y = 200"
  show "caches (snd (networkFirst net origin w request)) =
      update_named (caches_open (caches w) CACHE_NAME) CACHE_NAME (\<lambda>c. cache_put c request y)"
    by (subst networkFirst_caches) (simp add: y)
next
  assume n: "\<not> (\<exists>y. net request = Some y \<and> status y = 200)"
  show "caches (snd (networkFirst net origin w request)) = caches w
      \<or> caches (snd (networkFirst net origin w request)) = caches_open (caches w) CACHE_NAME"
  proof (cases "net request")
    case None
    then show ?thesis by (rule networkFirst_caches_offline)
  next
    case (Some y)
    with n have "status y \<noteq> 200" by simp
    with Some show ?thesis by (subst networkFirst_caches) simp
  qed
qed

lemma apiNetworkFirst_entries:
  "entry_of (snd (apiNetworkFirst net w request)) name u =
     (if name = API_CACHE_NAME \<and> u = url request
         \<and> (\<exists>y. net request = Some y \<and> status y = 200 \<and> put_accepts request y)
      then net request else entry_of w name u)"
proof (rule strategy_entries)
  fix y assume "net request = Some y" "status y = 200"
  then show "caches (snd (apiNetworkFirst net w request)) =
      update_named (caches_open (caches w) API_CACHE_NAME) API_CACHE_NAME
        (\<lambda>c. cache_put c request y)"
    by (simp add: apiNetworkFirst_caches)
next
  assume "\<not> (\<exists>y. net request = Some y \<and> status y = 200)"
  then show "caches (snd (apiNetworkFirst net w request)) = caches w
      \<or> caches (snd (apiNetworkFirst net w request)) = caches_open (caches w) API_CACHE_NAME"
    by (cases "net request") (simp_all add: apiNetworkFirst_caches)
qed

lemma stores_from_entries:
  assumes eq: "\<And>name u. e' name u =
     (if name = n \<and> u = k \<and> (\<exists>y. r = Some y \<and> status y = 200 \<and> P y) then r else e name u)"
  shows "(\<forall>name u x. e' name u = Some x \<longrightarrow>
            e name u = Some x \<or> (r = Some x \<and> status x = 200 \<and> u = k \<and> name = n))
       \<and> (\<forall>name u x. e name u = Some x \<longrightarrow>
            e' name u = Some x
            \<or> (\<exists>y. e' name u = Some y \<and> r = Some y \<and> status y = 200 \<and> u = k \<and> name = n))"
proof (intro conjI allI impI)
  fix name u x
  assume a: "e' name u = Some x"
  show "e name u = Some x \<or> (r = Some x \<and> status x = 200 \<and> u = k \<and> name = n)"
  proof (cases "name = n \<and> u = k \<and> (\<exists>y. r = Some y \<and> status y = 200 \<and> P y)")
    case True
    then obtain y where y: "r = Some y" "status y = 200" by blast
    from True have "e' name u = r" unfolding eq [of name u] by (rule if_P)
    with a y have "y = x" by simp
    with y True show ?thesis by simp
  next
    case False
    then have "e' name u = e name u" unfolding eq [of name u] by (rule if_not_P)
    with a show ?thesis by simp
  qed
next
  fix name u x
  assume a: "e name u = Some x"
  show "e' name u = Some x
        \<or> (\<exists>y. e' name u = Some y \<and> r = Some y \<and> status y = 200 \<and> u = k \<and> name = n)"
  proof (cases "name = n \<and> u = k \<and> (\<exists>y. r = Some y \<and> status y = 200 \<and> P y)")
    case True
    then obtain y where y: "r = Some y" "status y = 200" by blast
    from True have "e' name u = r" unfolding eq [of name u] by (rule if_P)
    with y True show ?thesis by simp
  next
    case False
    then have "e' name u = e name u" unfolding eq [of name u] by (rule if_not_P)
    with a show ?thesis by simp
  qed
qed

lemma cacheFirst_stores:
  "(\<forall>name u x. entry_of (snd (cacheFirst net w request)) name u = Some x \<longrightarrow>
       entry_of w name u = Some x
       \<or> (net request = Some x \<and> status x = 200 \<and> u = url request \<and> name = CACHE_NAME))
   \<and> (\<forall>name u x. entry_of w name u = Some x \<longrightarrow>
       entry_of (snd (cacheFirst net w request)) name u = Some x
       \<or> (\<exists>y. entry_of (snd (cacheFirst net w request)) name u = Some y
              \<and> net request = Some y \<and> status y = 200 \<and> u = url request \<and> name = CACHE_NAME))"
  by (rule stores_from_entries
        [where e' = "entry_of (snd (cacheFirst net w request))" and e = "entry_of w"
           and P = "put_accepts request"])
     (rule cacheFirst_entries)

lemma networkFirst_stores:
  "(\<forall>name u x. entry_of (snd (networkFirst net origin w request)) name u = Some x \<longrightarrow>
       entry_of w name u = Some x
       \<or> (net request = Some x \<and> status x = 200 \<and> u = url request \<and> name = CACHE_NAME))
   \<and> (\<forall>name u x. entry_of w name u = Some x \<longrightarrow>
       entry_of (snd (networkFirst net origin w request)) name u = Some x
       \<or> (\<exists>y. entry_of (snd (networkFirst net origin w request)) name u = Some y
              \<and> net request = Some y \<and> status y = 200 \<and> u = url request \<and> name = CACHE_NAME))"
  by (rule stores_from_entries
        [where e' = "entry_of (snd (networkFirst net origin w request))" and e = "entry_of w"
           and P = "put_accepts request"])
     (rule networkFirst_entries)

lemma apiNetworkFirst_stores:
  "(\<forall>name u x. entry_of (snd (apiNetworkFirst net w request)) name u = Some x \<longrightarrow>
       entry_of w name u = Some x
       \<or> (net request = Some x \<and> status x = 200 \<and> u = url request \<and> name = API_CACHE_NAME))
   \<and> (\<forall>name u x. entry_of w name u = Some x \<longrightarrow>
       entry_of (snd (apiNetworkFirst net w request)) name u = Some x
       \<or> (\<exists>y. entry_of (snd (apiNetworkFirst net w request)) name u = Some y
              \<and> net request = Some y \<and> status y = 200 \<and> u = url request
              \<and> name = API_CACHE_NAME))"
  by (rule stores_from_entries
        [where e' = "entry_of (snd (apiNetworkFirst net w request))" and e = "entry_of w"
           and P = "put_accepts request"])
     (rule apiNetworkFirst_entries)

text \<open>
  Claim C9. After any of the three strategies has handled a request, every entry of every
  cache either was there before, unchanged, or is the whole response the network gave to
  this request, with status 200, stored under the request's URL in the strategy's cache;
  and every entry that was there before is still there, unchanged, or has been
  overwritten by that whole response. So a response with another status is never stored,
  no entry is removed, and an entry changes only by being overwritten as a whole with a
  fresh successful response.
\<close>

theorem strategies_store_only_successful_responses:
  "(\<forall>name u x. entry_of (snd (cacheFirst net w request)) name u = Some x \<longrightarrow>
       entry_of w name u = Some x
       \<or> (net request = Some x \<and> status x = 200 \<and> u = url request \<and> name = CACHE_NAME))
   \<and> (\<forall>name u x. entry_of w name u = Some x \<longrightarrow>
       entry_of (snd (cacheFirst net w request)) name u = Some x
       \<or> (\<exists>y. entry_of (snd (cacheFirst net w request)) name u = Some y
              \<and> net request = Some y \<and> status y = 200 \<and> u = url request \<and> name = CACHE_NAME))
   \<and> (\<forall>name u x. entry_of (snd (networkFirst net origin w request)) name u = Some x \<longrightarrow>
       entry_of w name u = Some x
       \<or> (net request = Some x \<and> status x = 200 \<and> u = url request \<and> name = CACHE_NAME))
   \<and> (\<forall>name u x. entry_of w name u = Some x \<longrightarrow>
       entry_of (snd (networkFirst net origin w request)) name u = Some x
       \<or> (\<exists>y. entry_of (snd (networkFirst net origin w request)) name u = Some y
              \<and> net request = Some y \<and> status y = 200 \<and> u = url request \<and> name = CACHE_NAME))
   \<and> (\<forall>name u x. entry_of (snd (apiNetworkFirst net w request)) name u = Some x \<longrightarrow>
       entry_of w name u = Some x
       \<or> (net request = Some x \<and> status x = 200 \<and> u = url request \<and> name = API_CACHE_NAME))
   \<and> (\<forall>name u x. entry_of w name u = Some x \<longrightarrow>
       entry_of (snd (apiNetworkFirst net w request)) name u = Some x
       \<or> (\<exists>y. entry_of (snd (apiNetworkFirst net w request)) name u = Some y
              \<and> net request = Some y \<and> status y = 200 \<and> u = url request
              \<and> name = API_CACHE_NAME))"
proof -
  note a = cacheFirst_stores [of net w request]
  note b = networkFirst_stores [of net origin w request]
  note c = apiNetworkFirst_stores [of net w request]
  show ?thesis
    by (rule conjI [OF conjunct1 [OF a] conjI [OF conjunct2 [OF a]
          conjI [OF conjunct1 [OF b] conjI [OF conjunct2 [OF b]
          conjI [OF conjunct1 [OF c] conjunct2 [OF c]]]]]])
qed

text \<open>
  A revalidated page is the network's status-200 answer, written over the old one; a 404
  answer is stored by no strategy, and leaves the cached page and the cached statistics
  in place.
\<close>

theorem strategies_store_only_successful_responses_witness:
  "entry_of ex_static_world CACHE_NAME (ex_origin @ ''/index.html'') = Some ex_page_old
   \<and> entry_of (snd (cacheFirst net_up ex_static_world (ex_request ''GET'' ''/index.html'' [])))
       CACHE_NAME (ex_origin @ ''/index.html'') = Some ex_page_new
   \<and> net_up (ex_request ''GET'' ''/index.html'' []) = Some ex_page_new
   \<and> status ex_page_new = 200
   \<and> ex_page_old \<noteq> ex_page_new
   \<and> entry_of (snd (cacheFirst net_404 ex_static_world (ex_request ''GET'' ''/index.html'' [])))
       CACHE_NAME (ex_origin @ ''/index.html'') = Some ex_page_old
   \<and> entry_of (snd (networkFirst net_404 ex_origin ex_static_world (ex_request ''GET'' ''/map'' [])))
       CACHE_NAME (ex_origin @ ''/index.html'') = Some ex_page_old
   \<and> entry_of ex_api_world API_CACHE_NAME (ex_origin @ ''/api/statistics'') = Some ex_stats
   \<and> entry_of (snd (apiNetworkFirst net_404 ex_api_world (ex_request ''GET'' ''/api/statistics'' [])))
       API_CACHE_NAME (ex_origin @ ''/api/statistics'') = Some ex_stats"
proof -
  note keep_cf = strategies_store_only_successful_responses
         [of net_404 ex_static_world "ex_request ''GET'' ''/index.html'' []" ex_origin,
          THEN conjunct2, THEN conjunct1, rule_format]
  note keep_nf = strategies_store_only_successful_responses
         [of net_404 ex_static_world "ex_request ''GET'' ''/map'' []" ex_origin,
          THEN conjunct2, THEN conjunct2, THEN conjunct2, THEN conjunct1, rule_format]
  note keep_api = strategies_store_only_successful_responses
         [of net_404 ex_api_world "ex_request ''GET'' ''/api/statistics'' []" ex_origin,
          THEN conjunct2, THEN conjunct2, THEN conjunct2, THEN conjunct2, THEN conjunct2,
          rule_format]
  have old: "entry_of ex_static_world CACHE_NAME (ex_origin @ ''/index.html'') = Some ex_page_old"
    by (simp add: entry_of_def ex_static_world_def empty_world_def cache_named_def)
  have stats: "entry_of ex_api_world API_CACHE_NAME (ex_origin @ ''/api/statistics'') = Some ex_stats"
    by (simp add: entry_of_def ex_api_world_def empty_world_def cache_named_def)
  have up: "net_up (ex_request ''GET'' ''/index.html'' []) = Some ex_page_new"
    and st: "status ex_page_new = 200"
    by (simp_all add: net_up_def ex_page_new_def)
  have "body ex_page_old \<noteq> body ex_page_new"
    by (simp add: ex_page_new_def ex_page_old_def)
  then have ne: "ex_page_old \<noteq> ex_page_new" by auto
  have nf: "\<And>r y. net_404 r = Some y \<Longrightarrow> status y \<noteq> 200"
    by (auto simp: net_404_def ex_not_found_def)
  have acc: "put_accepts (ex_request ''GET'' ''/index.html'' []) ex_page_new"
    using ex_vary(3) ex_index_http
    by (simp add: put_accepts_def ex_request_simps ex_page_new_def)
  have new: "entry_of (snd (cacheFirst net_up ex_static_world (ex_request ''GET'' ''/index.html'' [])))
       CACHE_NAME (ex_origin @ ''/index.html'') = Some ex_page_new"
    using up st acc by (simp add: cacheFirst_entries ex_request_simps)
  from keep_cf [OF old] nf
  have k1: "entry_of (snd (cacheFirst net_404 ex_static_world (ex_request ''GET'' ''/index.html'' [])))
       CACHE_NAME (ex_origin @ ''/index.html'') = Some ex_page_old"
    by blast
  from keep_nf [OF old] nf
  have k2: "entry_of (snd (networkFirst net_404 ex_origin ex_static_world (ex_request ''GET'' ''/map'' [])))
       CACHE_NAME (ex_origin @ ''/index.html'') = Some ex_page_old"
    by blast
  from keep_api [OF stats] nf
  have k4: "entry_of (snd (apiNetworkFirst net_404 ex_api_world (ex_request ''GET'' ''/api/statistics'' [])))
       API_CACHE_NAME (ex_origin @ ''/api/statistics'') = Some ex_stats"
    by blast
  from old new up st ne k1 k2 stats k4 show ?thesis by (intro conjI)
qed

subsection \<open>Writes while offline\<close>

lemma caches_match_not_get: "req_method r \<noteq> ''GET'' \<Longrightarrow> caches_match cs r = None"
  by (induction cs r rule: caches_match.induct) (simp_all add: cache_match_def)

text \<open>
  Claim C1, as amended. A request that is not a GET and whose network fetch fails is not
  enqueued: the cache \<^verbatim>\<open>offline-actions\<close> is afterwards what it was before. When the request
  carries an Accept header that does not include \<^verbatim>\<open>text/html\<close>, the caller receives the
  response \<^verbatim>\<open>Offline\<close> with status 503 (Service Unavailable), and no cache has changed.
\<close>

theorem failed_write_is_answered_offline_not_queued:
  "req_method request \<noteq> ''GET'' \<and> net request = None \<longrightarrow>
     cache_named (caches (snd (fetch_listener pathname_of net origin w request))) ''offline-actions''
       = cache_named (caches w) ''offline-actions''
     \<and> (\<forall>accept. headers_get (req_headers request) ''Accept'' = Some accept
            \<and> \<not> str_includes accept ''text/html'' \<longrightarrow>
          fst (fetch_listener pathname_of net origin w request) =
            Inr (Some \<lparr>status = 503, statusText = ''Service Unavailable'', headers = [],
                       body = ''Offline''\<rparr>)
          \<and> caches (snd (fetch_listener pathname_of net origin w request)) = caches w)"
  by (auto simp: fetch_listener_def networkFirst_def fetch_def await_fetch_def caches_match_not_get
      cache_named_open new_Response_def responding_def Let_def split: option.splits)

text \<open>The amended claim at a posted alert, with the network down.\<close>

theorem failed_write_is_answered_offline_not_queued_witness:
  "req_method ex_alert_post \<noteq> ''GET'' \<and> net_down ex_alert_post = None
   \<and> headers_get (req_headers ex_alert_post) ''Accept'' = Some ''application/json''
   \<and> \<not> str_includes ''application/json'' ''text/html''
   \<and> fst (fetch_listener ex_pathname net_down ex_origin ex_api_world ex_alert_post) =
        Inr (Some \<lparr>status = 503, statusText = ''Service Unavailable'', headers = [],
                   body = ''Offline''\<rparr>)
   \<and> caches (snd (fetch_listener ex_pathname net_down ex_origin ex_api_world ex_alert_post)) =
        caches ex_api_world"
proof -
  have a: "req_method ex_alert_post \<noteq> ''GET''" and b: "net_down ex_alert_post = None"
    and c: "headers_get (req_headers ex_alert_post) ''Accept'' = Some ''application/json''"
    by (simp_all add: ex_alert_post_def net_down_def headers_get_def)
  have d: "\<not> str_includes ''application/json'' ''text/html''"
    by (simp add: startsWith_def)
  from failed_write_is_answered_offline_not_queued
         [of ex_alert_post net_down ex_pathname ex_origin ex_api_world] a b c d
  show ?thesis by blast
qed

text \<open>
  Claim C1 as stated fails: for a posted alert with the network down the caller receives
  the 503 response, whose status is not a successful one, and the queue holds no item.
\<close>

theorem failed_write_gets_error_and_empty_queue:
  "req_method ex_alert_post \<noteq> ''GET'' \<and> net_down ex_alert_post = None
   \<and> fst (fetch_listener ex_pathname net_down ex_origin empty_world ex_alert_post) =
        Inr (Some \<lparr>status = 503, statusText = ''Service Unavailable'', headers = [],
                   body = ''Offline''\<rparr>)
   \<and> \<not> response_ok \<lparr>status = 503, statusText = ''Service Unavailable'', headers = [],
                      body = ''Offline''\<rparr>
   \<and> cache_named (caches (snd (fetch_listener ex_pathname net_down ex_origin empty_world
                                 ex_alert_post))) ''offline-actions'' = []"
  by (simp add: ex_alert_post_def net_down_def fetch_listener_def networkFirst_def fetch_def await_fetch_def
      empty_world_def headers_get_def startsWith_def new_Response_def responding_def
      response_ok_def cache_named_def Let_def)

subsection \<open>Reads while offline\<close>

text \<open>
  Claim C7 fails on the code. A navigation to \<^verbatim>\<open>/map\<close> accepting \<^verbatim>\<open>text/html\<close>, with the
  network down, no cache entry and no cached \<^verbatim>\<open>/offline.html\<close>, settles with
  \<^verbatim>\<open>undefined\<close> and not with the generic 503 response; without an Accept header the
  handler throws a TypeError.
\<close>

theorem offline_navigation_goes_unanswered:
  "net_down (ex_request ''GET'' ''/map'' [(''Accept'', ''text/html'')]) = None
   \<and> caches_match (caches empty_world) (ex_request ''GET'' ''/map'' [(''Accept'', ''text/html'')]) = None
   \<and> fst (fetch_listener ex_pathname net_down ex_origin empty_world
             (ex_request ''GET'' ''/map'' [(''Accept'', ''text/html'')])) = Inr None
   \<and> fst (fetch_listener ex_pathname net_down ex_origin empty_world
             (ex_request ''GET'' ''/map'' [])) = Inl TypeError"
  by (simp add: ex_request_def ex_pathname_def ex_origin_def net_down_def fetch_listener_def
      networkFirst_def fetch_def await_fetch_def empty_world_def headers_get_def startsWith_def endsWith_def
      isStaticAsset_def caches_open_def cache_named_def cache_match_def request_of_def
      resolve_def Let_def)

subsection \<open>Notifications\<close>

lemma focus_or_open_find:
  "focus_or_open cl co t =
     (case find (\<lambda>c. client_url c = t \<and> focusable c) cl of
        Some c \<Rightarrow> Focus c
      | None \<Rightarrow> if co then OpenWindow t else NoAction)"
  by (induction cl) auto

text \<open>
  Claim C8, as amended. A push with no payload, or with an empty one, displays a
  notification with the default title and body. A click always
  closes the notification. A click carrying the action \<^verbatim>\<open>view\<close> takes the target from the
  \<^verbatim>\<open>url\<close> of the notification's data bag, \<^verbatim>\<open>/dashboard.html\<close> when there is none, focuses
  the first open window that shows exactly that URL and can be focused, and otherwise
  opens a new window on it. A click carrying any other action, or none, does nothing more
  than close the notification.
\<close>

theorem push_defaults_and_view_click_routing:
  "push_listener None =
      Inr (showNotification empty_payload)
   \<and> title (showNotification empty_payload) = ''CarTrace Pro''
   \<and> note_body (showNotification empty_payload) = ''New stolen vehicle alert''
   \<and> note_data (showNotification empty_payload) = []
   \<and> push_listener (Some (Inr empty_payload)) = Inr (showNotification empty_payload)
   \<and> fst (notificationclick action bag clientList can_open) = True
   \<and> (action = ''view'' \<longrightarrow>
        snd (notificationclick action bag clientList can_open) =
          (case find (\<lambda>c. client_url c = js_or (map_of bag ''url'') ''/dashboard.html''
                         \<and> focusable c) clientList of
             Some c \<Rightarrow> Focus c
           | None \<Rightarrow> if can_open then OpenWindow (js_or (map_of bag ''url'') ''/dashboard.html'')
                     else NoAction))
   \<and> (map_of bag ''url'' = None \<longrightarrow> js_or (map_of bag ''url'') ''/dashboard.html'' = ''/dashboard.html'')
   \<and> (action \<noteq> ''view'' \<longrightarrow> snd (notificationclick action bag clientList can_open) = NoAction)"
  by (simp add: push_listener_def showNotification_def empty_payload_def notificationclick_def
      focus_or_open_find)

text \<open>Clicks on View with and without a target and an open window, and a click on Dismiss.\<close>

theorem push_defaults_and_view_click_routing_witness:
  "snd (notificationclick ''view'' [] [] True) = OpenWindow ''/dashboard.html''
   \<and> snd (notificationclick ''view'' [(''url'', ''/alerts.html'')] [] True) = OpenWindow ''/alerts.html''
   \<and> snd (notificationclick ''view'' [] [ex_dashboard_client] True) = Focus ex_dashboard_client
   \<and> snd (notificationclick ''close'' [] [ex_dashboard_client] True) = NoAction"
  using push_defaults_and_view_click_routing [of "''view''" "[]" "[]" True]
    push_defaults_and_view_click_routing [of "''view''" "[(''url'', ''/alerts.html'')]" "[]" True]
    push_defaults_and_view_click_routing [of "''view''" "[]" "[ex_dashboard_client]" True]
    push_defaults_and_view_click_routing [of "''close''" "[]" "[ex_dashboard_client]" True]
  by (simp add: ex_dashboard_client_def)

text \<open>
  Claim C8 as stated fails: a click on the notification itself (no action) after a push
  with no payload closes the notification and neither focuses nor opens the dashboard.
\<close>

theorem plain_click_opens_nothing:
  "push_listener None = Inr (showNotification empty_payload)
   \<and> notificationclick [] (note_data (showNotification empty_payload)) [] True = (True, NoAction)
   \<and> NoAction \<noteq> OpenWindow ''/dashboard.html''"
  by (simp add: push_listener_def notificationclick_def)

subsection \<open>Install\<close>

lemma collect_ok_None_iff:
  "collect_ok rs = None \<longleftrightarrow> (\<exists>r \<in> set rs. case r of None \<Rightarrow> True | Some x \<Rightarrow> \<not> addAll_accepts x)"
  by (induction rs rule: collect_ok.induct) auto

lemma collect_ok_Some: "collect_ok rs = Some xs \<Longrightarrow> rs = map Some xs"
  by (induction rs arbitrary: xs rule: collect_ok.induct) (auto split: if_splits)

lemma map_of_put_all:
  "map_of (put_all c es) k =
     (case map_of (rev (map (\<lambda>e. (url (fst e), snd e)) es)) k of
        Some r \<Rightarrow> Some r
      | None \<Rightarrow> map_of c k)"
proof (induction es arbitrary: c)
  case Nil
  then show ?case by (simp add: put_all_def)
next
  case (Cons e es)
  have step: "put_all c (e # es) = put_all (cache_store c (url (fst e)) (snd e)) es"
    by (simp add: put_all_def)
  show ?case
    unfolding step Cons.IH
    by (simp add: map_of_cache_store map_add_def split: option.splits)
qed

lemma map_of_consistent:
  assumes "k \<in> fst ` set L" and "\<forall>e \<in> set L. fst e = k \<longrightarrow> snd e = v"
  shows "map_of L k = Some v"
proof -
  from assms(1) obtain v' where v': "map_of L k = Some v'"
    by (cases "map_of L k") (auto simp: map_of_eq_None_iff)
  then have "(k, v') \<in> set L" by (rule map_of_SomeD)
  with assms(2) have "v' = v" by auto
  with v' show ?thesis by simp
qed

lemma addAll_stores:
  assumes ok: "collect_ok (map net (map (\<lambda>u. request_of (resolve origin u)) urls)) = Some resps"
    and u: "u \<in> set urls"
  shows "map_of (put_all c (zip (map (\<lambda>u. request_of (resolve origin u)) urls) resps))
           (resolve origin u) = net (request_of (resolve origin u))"
proof -
  let ?reqs = "map (\<lambda>u. request_of (resolve origin u)) urls"
  let ?es = "zip ?reqs resps"
  let ?L = "rev (map (\<lambda>e. (url (fst e), snd e)) ?es)"
  from collect_ok_Some [OF ok] have m: "map net ?reqs = map Some resps" .
  then have len: "length resps = length ?reqs"
    by (metis length_map)
  have pair: "\<forall>e \<in> set ?es. net (fst e) = Some (snd e) \<and> fst e = request_of (url (fst e))"
  proof
    fix e assume "e \<in> set ?es"
    then obtain i where i: "i < length ?reqs" "i < length resps" and e: "e = (?reqs ! i, resps ! i)"
      by (auto simp: set_zip)
    from m i have "net (?reqs ! i) = Some (resps ! i)"
      by (metis nth_map)
    moreover from i have "?reqs ! i = request_of (url (?reqs ! i))"
      by (simp add: request_of_def)
    ultimately show "net (fst e) = Some (snd e) \<and> fst e = request_of (url (fst e))"
      using e by simp
  qed
  from u obtain i where i: "i < length urls" "urls ! i = u"
    by (auto simp: in_set_conv_nth)
  with len have e_in: "(request_of (resolve origin u), resps ! i) \<in> set ?es"
    by (auto simp: set_zip intro!: exI [of _ i])
  with pair have net_u: "net (request_of (resolve origin u)) = Some (resps ! i)" by force
  have k_in: "resolve origin u \<in> fst ` set ?L"
    using e_in by (force simp: request_of_def)
  have cons: "\<forall>p \<in> set ?L. fst p = resolve origin u \<longrightarrow> snd p = resps ! i"
  proof (intro ballI impI)
    fix p assume "p \<in> set ?L" and k: "fst p = resolve origin u"
    then obtain e where e: "e \<in> set ?es" "p = (url (fst e), snd e)" by auto
    with pair have 1: "net (fst e) = Some (snd e)" and 2: "fst e = request_of (url (fst e))" by auto
    from e k have "url (fst e) = resolve origin u" by simp
    with 2 have "fst e = request_of (resolve origin u)" by simp
    with 1 net_u have "snd e = resps ! i" by simp
    with e show "snd p = resps ! i" by simp
  qed
  from map_of_consistent [OF k_in cons] have "map_of ?L (resolve origin u) = Some (resps ! i)" .
  with map_of_put_all [of c ?es "resolve origin u"] net_u show ?thesis by simp
qed

lemma install_resolves: "fst (install net origin w) = Inr ()"
  by (simp add: install_def Let_def split: prod.splits sum.splits)

lemma install_fetches:
  "fetches (snd (install net origin w)) =
     fetches w @ map (\<lambda>u. request_of (resolve origin u)) STATIC_ASSETS"
  by (simp add: install_def addAll_def Let_def split: option.splits)

lemma install_failure:
  assumes "\<exists>u \<in> set STATIC_ASSETS.
             case net (request_of (resolve origin u)) of None \<Rightarrow> True | Some r \<Rightarrow> \<not> addAll_accepts r"
  shows "skipWaiting_called (snd (install net origin w)) = skipWaiting_called w"
    and "caches (snd (install net origin w)) = caches_open (caches w) CACHE_NAME"
proof -
  from assms have "collect_ok (map net (map (\<lambda>u. request_of (resolve origin u)) STATIC_ASSETS)) = None"
    unfolding collect_ok_None_iff by auto
  then show "skipWaiting_called (snd (install net origin w)) = skipWaiting_called w"
    and "caches (snd (install net origin w)) = caches_open (caches w) CACHE_NAME"
    by (simp_all add: install_def addAll_def Let_def)
qed

lemma install_success:
  assumes "\<forall>u \<in> set STATIC_ASSETS.
             case net (request_of (resolve origin u)) of None \<Rightarrow> False | Some r \<Rightarrow> addAll_accepts r"
  shows "skipWaiting_called (snd (install net origin w))"
    and "\<forall>u \<in> set STATIC_ASSETS.
           entry_of (snd (install net origin w)) CACHE_NAME (resolve origin u)
             = net (request_of (resolve origin u))"
proof -
  let ?reqs = "map (\<lambda>u. request_of (resolve origin u)) STATIC_ASSETS"
  have "collect_ok (map net ?reqs) \<noteq> None"
    unfolding collect_ok_None_iff using assms by (auto split: option.splits)
  then obtain resps where ok: "collect_ok (map net ?reqs) = Some resps" by auto
  then show "skipWaiting_called (snd (install net origin w))"
    by (simp add: install_def addAll_def Let_def)
  have present: "map_of (caches_open (caches w) CACHE_NAME) CACHE_NAME \<noteq> None"
    by (simp add: map_of_caches_open)
  show "\<forall>u \<in> set STATIC_ASSETS.
           entry_of (snd (install net origin w)) CACHE_NAME (resolve origin u)
             = net (request_of (resolve origin u))"
  proof
    fix u assume u: "u \<in> set STATIC_ASSETS"
    from present obtain c where c: "map_of (caches_open (caches w) CACHE_NAME) CACHE_NAME = Some c"
      by auto
    have "entry_of (snd (install net origin w)) CACHE_NAME (resolve origin u)
            = map_of (put_all c (zip ?reqs resps)) (resolve origin u)"
      using ok c by (simp add: install_def addAll_def Let_def entry_of_def cache_named_update)
    also have "\<dots> = net (request_of (resolve origin u))"
      by (rule addAll_stores [OF ok u])
    finally show "entry_of (snd (install net origin w)) CACHE_NAME (resolve origin u)
             = net (request_of (resolve origin u))" .
  qed
qed

text \<open>
  What install does, for every network: the promise given to \<^verbatim>\<open>waitUntil\<close> resolves; every
  manifest entry is fetched; when a fetch fails or answers with a response \<^verbatim>\<open>addAll\<close> does
  not take, nothing is stored and \<^verbatim>\<open>skipWaiting\<close> is not called; when every fetch answers
  with a response it takes, every answer is stored in the current cache and
  \<^verbatim>\<open>skipWaiting\<close> is called.
\<close>

theorem install_swallows_precache_failure:
  "fst (install net origin w) = Inr ()
   \<and> fetches (snd (install net origin w)) =
       fetches w @ map (\<lambda>u. request_of (resolve origin u)) STATIC_ASSETS
   \<and> ((\<exists>u \<in> set STATIC_ASSETS.
          case net (request_of (resolve origin u)) of None \<Rightarrow> True | Some r \<Rightarrow> \<not> addAll_accepts r) \<longrightarrow>
        skipWaiting_called (snd (install net origin w)) = skipWaiting_called w
        \<and> caches (snd (install net origin w)) = caches_open (caches w) CACHE_NAME)
   \<and> ((\<forall>u \<in> set STATIC_ASSETS.
          case net (request_of (resolve origin u)) of None \<Rightarrow> False | Some r \<Rightarrow> addAll_accepts r) \<longrightarrow>
        skipWaiting_called (snd (install net origin w))
        \<and> (\<forall>u \<in> set STATIC_ASSETS.
              entry_of (snd (install net origin w)) CACHE_NAME (resolve origin u)
                = net (request_of (resolve origin u))))"
  using install_resolves [of net origin w] install_fetches [of net origin w]
    install_failure [of net origin w] install_success [of net origin w]
  by blast

text \<open>Install with one manifest entry unreachable, and with the whole manifest reachable.\<close>

theorem install_swallows_precache_failure_witness:
  "skipWaiting_called (snd (install net_partial ex_origin empty_world)) = skipWaiting_called empty_world
   \<and> caches (snd (install net_partial ex_origin empty_world)) =
       caches_open (caches empty_world) CACHE_NAME
   \<and> skipWaiting_called (snd (install net_up ex_origin empty_world))
   \<and> entry_of (snd (install net_up ex_origin empty_world)) CACHE_NAME
       (resolve ex_origin ''/index.html'') = Some ex_page_new"
proof -
  have bad: "\<exists>u \<in> set STATIC_ASSETS.
          case net_partial (request_of (resolve ex_origin u)) of
            None \<Rightarrow> True | Some r \<Rightarrow> \<not> addAll_accepts r"
    by (simp add: STATIC_ASSETS_def net_partial_def request_of_def resolve_def)
  have good: "\<forall>u \<in> set STATIC_ASSETS.
          case net_up (request_of (resolve ex_origin u)) of
            None \<Rightarrow> False | Some r \<Rightarrow> addAll_accepts r"
    using ex_vary(3) by (simp add: net_up_def addAll_accepts_def response_ok_def ex_page_new_def)
  have mem: "''/index.html'' \<in> set STATIC_ASSETS"
    by (simp add: STATIC_ASSETS_def)
  have up: "net_up (request_of (resolve ex_origin ''/index.html'')) = Some ex_page_new"
    by (simp add: net_up_def)
  from install_swallows_precache_failure [of net_partial ex_origin empty_world] bad
  have f: "skipWaiting_called (snd (install net_partial ex_origin empty_world)) = skipWaiting_called empty_world
   \<and> caches (snd (install net_partial ex_origin empty_world)) =
       caches_open (caches empty_world) CACHE_NAME"
    by blast
  from install_swallows_precache_failure [of net_up ex_origin empty_world] good
  have g: "skipWaiting_called (snd (install net_up ex_origin empty_world))
        \<and> (\<forall>u \<in> set STATIC_ASSETS.
              entry_of (snd (install net_up ex_origin empty_world)) CACHE_NAME (resolve ex_origin u)
                = net_up (request_of (resolve ex_origin u)))"
    by blast
  with mem up have "entry_of (snd (install net_up ex_origin empty_world)) CACHE_NAME
       (resolve ex_origin ''/index.html'') = Some ex_page_new"
    by simp
  with f g show ?thesis by blast
qed

text \<open>
  Claim C2 fails on the code. With \<^verbatim>\<open>/about.html\<close> of the manifest unreachable, the promise
  given to \<^verbatim>\<open>waitUntil\<close> resolves instead of rejecting with the TypeError of
  \<^verbatim>\<open>addAll\<close>, and the current cache has been created, empty.
\<close>

theorem failed_precache_still_resolves_install:
  "''/about.html'' \<in> set STATIC_ASSETS
   \<and> net_partial (request_of (resolve ex_origin ''/about.html'')) = None
   \<and> fst (install net_partial ex_origin empty_world) = Inr ()
   \<and> fst (install net_partial ex_origin empty_world) \<noteq> Inl TypeError
   \<and> caches_keys (caches (snd (install net_partial ex_origin empty_world))) = [CACHE_NAME]"
  by (simp add: STATIC_ASSETS_def net_partial_def request_of_def resolve_def install_resolves
      install_failure(2) [of net_partial ex_origin] caches_open_def empty_world_def
      caches_keys_def)

subsection \<open>Draining the queue\<close>

lemma alerts_loop_drain:
  "alerts_loop parse stringify net origin us w =
     drain_loop parse stringify net ''/alerts'' (\<lambda>u. resolve origin ''/api/alerts'') us w"
  by (induction us arbitrary: w) simp_all

lemma sightings_loop_drain:
  "sightings_loop parse stringify net us w =
     drain_loop parse stringify net ''/sightings'' (\<lambda>u. u) us w"
  by (induction us arbitrary: w) simp_all

lemma queue_delete:
  "caches w' = update_named (caches w) ''offline-actions'' (\<lambda>c. cache_delete c u) \<Longrightarrow>
     queue w' = cache_delete (queue w) u"
  by (cases "map_of (caches w) ''offline-actions''")
    (simp_all add: queue_def cache_named_def map_of_update_named cache_delete_def)

text \<open>One turn of the loop, for a request that is in the queue.\<close>

lemma step_fetches:
  assumes "map_of (queue w) u = Some resp"
  shows "fetches (if str_includes u pat then snd (resubmit parse stringify net (target u) w u) else w) =
           fetches w @ (case planned parse stringify pat target (u, resp) of
                          None \<Rightarrow> [] | Some r \<Rightarrow> [r])"
  using assms
  by (auto simp: resubmit_def planned_def cache_match_def request_of_def queue_def fetch_def await_fetch_def
      split: option.splits)

lemma step_queue:
  assumes "map_of (queue w) u = Some resp"
  shows "queue (if str_includes u pat then snd (resubmit parse stringify net (target u) w u) else w) =
           (if undelivered net (planned parse stringify pat target (u, resp)) then queue w
            else cache_delete (queue w) u)"
proof (cases "str_includes u pat")
  case False
  then show ?thesis by (simp add: planned_def undelivered_def)
next
  case True
  from assms have m: "cache_match (cache_named (caches w) ''offline-actions'') (request_of u) = Some resp"
    by (simp add: cache_match_def request_of_def queue_def)
  show ?thesis
  proof (cases "parse (body resp)")
    case None
    with True m show ?thesis by (simp add: resubmit_def planned_def undelivered_def)
  next
    case (Some d)
    show ?thesis
    proof (cases "net \<lparr>req_method = ''POST'', url = target u,
                      req_headers = [(''Content-Type'', ''application/json'')],
                      req_body = stringify d\<rparr>")
      case None
      with True m Some show ?thesis
        by (simp add: resubmit_def planned_def undelivered_def fetch_def await_fetch_def queue_def)
    next
      case (Some answer)
      with True m \<open>parse (body resp) = Some d\<close> show ?thesis
        by (simp add: resubmit_def planned_def undelivered_def await_fetch_def queue_delete)
    qed
  qed
qed

lemma distinct_keys_entry:
  assumes "distinct (map fst q)" "map_of q u = Some resp" "e \<in> set q" "fst e = u"
  shows "e = (u, resp)"
proof -
  from assms(3,4) have "(u, snd e) \<in> set q" by (metis prod.collapse)
  with assms(1) have "map_of q u = Some (snd e)" by (rule map_of_is_SomeI)
  with assms(2,4) show ?thesis by (metis option.inject prod.collapse)
qed

lemma map_filter_agree:
  "(\<And>x. x \<in> set xs \<Longrightarrow> f x = g x) \<Longrightarrow> List.map_filter f xs = List.map_filter g xs"
proof (induction xs)
  case Nil
  show ?case by simp
next
  case (Cons a xs)
  then have "List.map_filter f xs = List.map_filter g xs" and "f a = g a" by simp_all
  then show ?case by (simp split: option.splits)
qed

lemma drain_loop_effect:
  assumes "distinct (map fst (queue w))" "distinct us" "set us \<subseteq> fst ` set (queue w)"
  shows "queue (drain_loop parse stringify net pat target us w) =
           filter (\<lambda>e. \<not> (fst e \<in> set us \<and> \<not> undelivered net (planned parse stringify pat target e)))
             (queue w)
         \<and> fetches (drain_loop parse stringify net pat target us w) =
           fetches w @ List.map_filter
             (\<lambda>u. case map_of (queue w) u of
                     None \<Rightarrow> None
                   | Some resp \<Rightarrow> planned parse stringify pat target (u, resp)) us"
  using assms
proof (induction us arbitrary: w)
  case Nil
  then show ?case by simp
next
  case (Cons u us)
  let ?w' = "if str_includes u pat then snd (resubmit parse stringify net (target u) w u) else w"
  let ?P = "planned parse stringify pat target"
  from Cons.prems(3) obtain resp where resp: "map_of (queue w) u = Some resp"
    by (cases "map_of (queue w) u") (auto simp: map_of_eq_None_iff)
  have q': "queue ?w' = (if undelivered net (?P (u, resp)) then queue w else cache_delete (queue w) u)"
    by (rule step_queue [OF resp])
  have f': "fetches ?w' = fetches w @ (case ?P (u, resp) of None \<Rightarrow> [] | Some r \<Rightarrow> [r])"
    by (rule step_fetches [OF resp])
  from Cons.prems(2) have u_notin: "u \<notin> set us" and dus: "distinct us" by simp_all
  have d': "distinct (map fst (queue ?w'))"
    using Cons.prems(1) by (simp add: q' cache_delete_def distinct_map_filter)
  have sub': "set us \<subseteq> fst ` set (queue ?w')"
  proof
    fix v assume v: "v \<in> set us"
    with Cons.prems(3) obtain e where e: "e \<in> set (queue w)" "fst e = v" by auto
    from v u_notin have "v \<noteq> u" by auto
    with e have "e \<in> set (queue ?w')" by (simp add: q' cache_delete_def)
    with e show "v \<in> fst ` set (queue ?w')" by force
  qed
  have other: "\<And>v. v \<noteq> u \<Longrightarrow> map_of (queue ?w') v = map_of (queue w) v"
    by (simp add: q' cache_delete_def map_of_filter_fst)
  note IH = Cons.IH [OF d' dus sub']
  have only: "\<And>e. e \<in> set (queue w) \<Longrightarrow> fst e = u \<Longrightarrow> e = (u, resp)"
    using distinct_keys_entry [OF Cons.prems(1) resp] by blast
  have Q: "queue (drain_loop parse stringify net pat target (u # us) w) =
           filter (\<lambda>e. \<not> (fst e \<in> set (u # us) \<and> \<not> undelivered net (?P e))) (queue w)"
  proof (cases "undelivered net (?P (u, resp))")
    case True
    have "queue (drain_loop parse stringify net pat target (u # us) w) =
            filter (\<lambda>e. \<not> (fst e \<in> set us \<and> \<not> undelivered net (?P e))) (queue w)"
      using IH True by (simp add: q')
    also have "\<dots> = filter (\<lambda>e. \<not> (fst e \<in> set (u # us) \<and> \<not> undelivered net (?P e))) (queue w)"
      using True only by (intro filter_cong refl) auto
    finally show ?thesis .
  next
    case False
    have "queue (drain_loop parse stringify net pat target (u # us) w) =
            filter (\<lambda>e. \<not> (fst e \<in> set us \<and> \<not> undelivered net (?P e)))
              (filter (\<lambda>e. fst e \<noteq> u) (queue w))"
      using IH False by (simp add: q' cache_delete_def)
    also have "\<dots> = filter (\<lambda>e. \<not> (fst e \<in> set (u # us) \<and> \<not> undelivered net (?P e))) (queue w)"
      unfolding filter_filter using False only by (intro filter_cong refl) auto
    finally show ?thesis .
  qed
  have same: "List.map_filter
             (\<lambda>v. case map_of (queue ?w') v of
                     None \<Rightarrow> None | Some resp \<Rightarrow> ?P (v, resp)) us =
           List.map_filter
             (\<lambda>v. case map_of (queue w) v of
                     None \<Rightarrow> None | Some resp \<Rightarrow> ?P (v, resp)) us"
  proof (rule map_filter_agree)
    fix v assume "v \<in> set us"
    with u_notin have "v \<noteq> u" by auto
    then have "map_of (queue ?w') v = map_of (queue w) v" by (rule other)
    then show "(case map_of (queue ?w') v of None \<Rightarrow> None | Some resp \<Rightarrow> ?P (v, resp)) =
               (case map_of (queue w) v of None \<Rightarrow> None | Some resp \<Rightarrow> ?P (v, resp))"
      by (rule arg_cong)
  qed
  have F: "fetches (drain_loop parse stringify net pat target (u # us) w) =
           fetches w @ List.map_filter
             (\<lambda>u. case map_of (queue w) u of
                     None \<Rightarrow> None | Some resp \<Rightarrow> ?P (u, resp)) (u # us)"
    using IH by (simp add: f' same resp split: option.splits)
  from Q F show ?case by blast
qed

lemma map_filter_of_map: "List.map_filter f (map g xs) = List.map_filter (f \<circ> g) xs"
  by (induction xs) (simp_all split: option.splits)

lemma map_filter_keys:
  assumes "distinct (map fst q)"
  shows "List.map_filter (\<lambda>u. case map_of q u of None \<Rightarrow> None | Some resp \<Rightarrow> P (u, resp)) (map fst q)
           = List.map_filter P q"
proof -
  have "List.map_filter (\<lambda>u. case map_of q u of None \<Rightarrow> None | Some resp \<Rightarrow> P (u, resp)) (map fst q)
          = List.map_filter ((\<lambda>u. case map_of q u of None \<Rightarrow> None | Some resp \<Rightarrow> P (u, resp)) \<circ> fst) q"
    by (rule map_filter_of_map)
  also have "\<dots> = List.map_filter P q"
  proof (rule map_filter_agree)
    fix e assume "e \<in> set q"
    then have "(fst e, snd e) \<in> set q" by simp
    with assms have "map_of q (fst e) = Some (snd e)" by (rule map_of_is_SomeI)
    then show "((\<lambda>u. case map_of q u of None \<Rightarrow> None | Some resp \<Rightarrow> P (u, resp)) \<circ> fst) e = P e"
      by simp
  qed
  finally show ?thesis .
qed

lemma drain_whole_queue:
  assumes d: "distinct (map fst (queue w))"
  shows "queue (drain_loop parse stringify net pat target (cache_keys (queue w))
                  (w\<lparr>caches := caches_open (caches w) ''offline-actions''\<rparr>)) =
           filter (\<lambda>e. undelivered net (planned parse stringify pat target e)) (queue w)"
    and "fetches (drain_loop parse stringify net pat target (cache_keys (queue w))
                  (w\<lparr>caches := caches_open (caches w) ''offline-actions''\<rparr>)) =
           fetches w @ List.map_filter (planned parse stringify pat target) (queue w)"
proof -
  let ?w1 = "w\<lparr>caches := caches_open (caches w) ''offline-actions''\<rparr>"
  have q1: "queue ?w1 = queue w" by (simp add: queue_def cache_named_open)
  have f1: "fetches ?w1 = fetches w" by simp
  have d1: "distinct (map fst (queue ?w1))" using d by (simp add: q1)
  have du: "distinct (cache_keys (queue w))" using d by (simp add: cache_keys_def)
  have su: "set (cache_keys (queue w)) \<subseteq> fst ` set (queue ?w1)"
    by (simp add: q1 cache_keys_def)
  note eff = drain_loop_effect [OF d1 du su, of parse stringify net pat target, unfolded q1 f1]
  have "queue (drain_loop parse stringify net pat target (cache_keys (queue w)) ?w1) =
          filter (\<lambda>e. \<not> (fst e \<in> set (cache_keys (queue w))
                        \<and> \<not> undelivered net (planned parse stringify pat target e))) (queue w)"
    using eff by blast
  also have "\<dots> = filter (\<lambda>e. undelivered net (planned parse stringify pat target e)) (queue w)"
    by (intro filter_cong refl) (auto simp: cache_keys_def)
  finally show "queue (drain_loop parse stringify net pat target (cache_keys (queue w)) ?w1) =
           filter (\<lambda>e. undelivered net (planned parse stringify pat target e)) (queue w)" .
  have "fetches (drain_loop parse stringify net pat target (cache_keys (queue w)) ?w1) =
          fetches w @ List.map_filter
             (\<lambda>u. case map_of (queue w) u of
                     None \<Rightarrow> None
                   | Some resp \<Rightarrow> planned parse stringify pat target (u, resp)) (cache_keys (queue w))"
    using eff by blast
  also have "\<dots> = fetches w @ List.map_filter (planned parse stringify pat target) (queue w)"
    unfolding cache_keys_def by (simp only: map_filter_keys [OF d])
  finally show "fetches (drain_loop parse stringify net pat target (cache_keys (queue w)) ?w1) =
           fetches w @ List.map_filter (planned parse stringify pat target) (queue w)" .
qed

lemma syncAlerts_unfold:
  "syncAlerts parse stringify net origin w =
     drain_loop parse stringify net ''/alerts'' (\<lambda>u. resolve origin ''/api/alerts'')
       (cache_keys (queue w)) (w\<lparr>caches := caches_open (caches w) ''offline-actions''\<rparr>)"
  by (simp add: syncAlerts_def alerts_loop_drain queue_def cache_named_open Let_def)

lemma syncSightings_unfold:
  "syncSightings parse stringify net w =
     drain_loop parse stringify net ''/sightings'' (\<lambda>u. u)
       (cache_keys (queue w)) (w\<lparr>caches := caches_open (caches w) ''offline-actions''\<rparr>)"
  by (simp add: syncSightings_def sightings_loop_drain queue_def cache_named_open Let_def)

lemma syncAlerts_effect:
  assumes "distinct (map fst (queue w))"
  shows "fetches (syncAlerts parse stringify net origin w) =
           fetches w @ List.map_filter
             (planned parse stringify ''/alerts'' (\<lambda>u. resolve origin ''/api/alerts'')) (queue w)"
    and "queue (syncAlerts parse stringify net origin w) =
           filter (\<lambda>e. undelivered net
                     (planned parse stringify ''/alerts'' (\<lambda>u. resolve origin ''/api/alerts'') e))
             (queue w)"
  unfolding syncAlerts_unfold by (rule drain_whole_queue [OF assms])+

lemma syncSightings_effect:
  assumes "distinct (map fst (queue w))"
  shows "fetches (syncSightings parse stringify net w) =
           fetches w @ List.map_filter (planned parse stringify ''/sightings'' (\<lambda>u. u)) (queue w)"
    and "queue (syncSightings parse stringify net w) =
           filter (\<lambda>e. undelivered net (planned parse stringify ''/sightings'' (\<lambda>u. u) e)) (queue w)"
  unfolding syncSightings_unfold by (rule drain_whole_queue [OF assms])+

lemma planned_explicit:
  "planned parse stringify pat target =
     (\<lambda>e. if str_includes (fst e) pat
          then map_option
                 (\<lambda>data. \<lparr>req_method = ''POST'', url = target (fst e),
                          req_headers = [(''Content-Type'', ''application/json'')],
                          req_body = stringify data\<rparr>)
                 (parse (body (snd e)))
          else None)"
  by (rule ext) (simp add: planned_def)

lemma undelivered_explicit:
  "undelivered net (planned parse stringify pat target e) =
     (\<not> (str_includes (fst e) pat
         \<and> (\<exists>data. parse (body (snd e)) = Some data
                \<and> net \<lparr>req_method = ''POST'', url = target (fst e),
                        req_headers = [(''Content-Type'', ''application/json'')],
                        req_body = stringify data\<rparr> \<noteq> None)))"
  by (cases "parse (body (snd e))") (simp_all add: undelivered_def planned_def)

text \<open>
  Claim C3, as amended. When no two queue entries share a URL, a drain of the alerts
  (of the sightings) sends, in queue order, one request for every entry whose URL
  contains \<^verbatim>\<open>/alerts\<close> (\<^verbatim>\<open>/sightings\<close>) and whose payload parses: a POST with the header
  \<^verbatim>\<open>Content-Type: application/json\<close> and the payload serialised again as body, to the fixed
  \<^verbatim>\<open>/api/alerts\<close> of the worker's origin for an alert and to the entry's own URL for a
  sighting. Afterwards the queue holds, in their order, exactly the entries for which no
  request was sent or whose fetch was rejected: an entry is deleted exactly when the
  fetch of its request resolved, and a failure of one entry changes nothing for the
  others.
\<close>

theorem drain_resubmits_by_category:
  "distinct (map fst (queue w)) \<longrightarrow>
     fetches (syncAlerts parse stringify net origin w) =
       fetches w @ List.map_filter
         (\<lambda>e. if str_includes (fst e) ''/alerts''
              then map_option
                     (\<lambda>data. \<lparr>req_method = ''POST'', url = origin @ ''/api/alerts'',
                      req_headers = [(''Content-Type'', ''application/json'')],
                      req_body = stringify data\<rparr>)
                     (parse (body (snd e)))
              else None)
         (queue w)
     \<and> queue (syncAlerts parse stringify net origin w) =
         filter
           (\<lambda>e. \<not> (str_includes (fst e) ''/alerts''
                   \<and> (\<exists>data. parse (body (snd e)) = Some data
                          \<and> net \<lparr>req_method = ''POST'', url = origin @ ''/api/alerts'',
                      req_headers = [(''Content-Type'', ''application/json'')],
                      req_body = stringify data\<rparr> \<noteq> None)))
           (queue w)
     \<and> fetches (syncSightings parse stringify net w) =
       fetches w @ List.map_filter
         (\<lambda>e. if str_includes (fst e) ''/sightings''
              then map_option
                     (\<lambda>data. \<lparr>req_method = ''POST'', url = fst e,
                      req_headers = [(''Content-Type'', ''application/json'')],
                      req_body = stringify data\<rparr>)
                     (parse (body (snd e)))
              else None)
         (queue w)
     \<and> queue (syncSightings parse stringify net w) =
         filter
           (\<lambda>e. \<not> (str_includes (fst e) ''/sightings''
                   \<and> (\<exists>data. parse (body (snd e)) = Some data
                          \<and> net \<lparr>req_method = ''POST'', url = fst e,
                      req_headers = [(''Content-Type'', ''application/json'')],
                      req_body = stringify data\<rparr> \<noteq> None)))
           (queue w)"
proof
  assume d: "distinct (map fst (queue w))"
  note a = syncAlerts_effect [OF d, of parse stringify net origin,
      unfolded undelivered_explicit, unfolded planned_explicit resolve_def]
  note s = syncSightings_effect [OF d, of parse stringify net,
      unfolded undelivered_explicit, unfolded planned_explicit]
  from a s show "fetches (syncAlerts parse stringify net origin w) =
       fetches w @ List.map_filter
         (\<lambda>e. if str_includes (fst e) ''/alerts''
              then map_option
                     (\<lambda>data. \<lparr>req_method = ''POST'', url = origin @ ''/api/alerts'',
                      req_headers = [(''Content-Type'', ''application/json'')],
                      req_body = stringify data\<rparr>)
                     (parse (body (snd e)))
              else None)
         (queue w)
     \<and> queue (syncAlerts parse stringify net origin w) =
         filter
           (\<lambda>e. \<not> (str_includes (fst e) ''/alerts''
                   \<and> (\<exists>data. parse (body (snd e)) = Some data
                          \<and> net \<lparr>req_method = ''POST'', url = origin @ ''/api/alerts'',
                      req_headers = [(''Content-Type'', ''application/json'')],
                      req_body = stringify data\<rparr> \<noteq> None)))
           (queue w)
     \<and> fetches (syncSightings parse stringify net w) =
       fetches w @ List.map_filter
         (\<lambda>e. if str_includes (fst e) ''/sightings''
              then map_option
                     (\<lambda>data. \<lparr>req_method = ''POST'', url = fst e,
                      req_headers = [(''Content-Type'', ''application/json'')],
                      req_body = stringify data\<rparr>)
                     (parse (body (snd e)))
              else None)
         (queue w)
     \<and> queue (syncSightings parse stringify net w) =
         filter
           (\<lambda>e. \<not> (str_includes (fst e) ''/sightings''
                   \<and> (\<exists>data. parse (body (snd e)) = Some data
                          \<and> net \<lparr>req_method = ''POST'', url = fst e,
                      req_headers = [(''Content-Type'', ''application/json'')],
                      req_body = stringify data\<rparr> \<noteq> None)))
           (queue w)"
    by (intro conjI)
qed

lemma ex_queue: "queue ex_queue_world =
         [(ex_origin @ ''/api/alerts?n=1'', ex_payload ''[101]''),
          (ex_origin @ ''/api/sightings?n=1'', ex_payload ''[102]''),
          (ex_origin @ ''/api/alerts?n=2'', ex_payload ''[103]'')]"
  by (simp add: queue_def ex_queue_world_def empty_world_def cache_named_def)

lemma ex_queue_distinct: "distinct (map fst (queue ex_queue_world))"
  by (simp add: ex_queue ex_origin_def)

lemma ex_categories:
  "str_includes (ex_origin @ ''/api/alerts?n=1'') ''/alerts''"
  "str_includes (ex_origin @ ''/api/alerts?n=2'') ''/alerts''"
  "\<not> str_includes (ex_origin @ ''/api/sightings?n=1'') ''/alerts''"
  "str_includes (ex_origin @ ''/api/sightings?n=1'') ''/sightings''"
  "\<not> str_includes (ex_origin @ ''/api/alerts?n=1'') ''/sightings''"
  "\<not> str_includes (ex_origin @ ''/api/alerts?n=2'') ''/sightings''"
  "\<not> str_includes (ex_origin @ ''/api/alerts'') ''/sightings''"
  by (simp_all add: ex_origin_def startsWith_def)

text \<open>
  Both drains on the queue of two alerts and a sighting, with a network that loses
  sightings: the alerts are sent in their order and deleted, the sighting is attempted
  and kept.
\<close>

theorem drain_resubmits_by_category_witness:
  "distinct (map fst (queue ex_queue_world))
   \<and> fetches (syncAlerts ex_parse ex_stringify net_no_sightings ex_origin ex_queue_world) =
       [\<lparr>req_method = ''POST'', url = ex_origin @ ''/api/alerts'',
          req_headers = [(''Content-Type'', ''application/json'')], req_body = ''[101]''\<rparr>,
        \<lparr>req_method = ''POST'', url = ex_origin @ ''/api/alerts'',
          req_headers = [(''Content-Type'', ''application/json'')], req_body = ''[103]''\<rparr>]
   \<and> queue (syncAlerts ex_parse ex_stringify net_no_sightings ex_origin ex_queue_world) =
       [(ex_origin @ ''/api/sightings?n=1'', ex_payload ''[102]'')]
   \<and> fetches (syncSightings ex_parse ex_stringify net_no_sightings ex_queue_world) =
       [\<lparr>req_method = ''POST'', url = ex_origin @ ''/api/sightings?n=1'',
          req_headers = [(''Content-Type'', ''application/json'')], req_body = ''[102]''\<rparr>]
   \<and> queue (syncSightings ex_parse ex_stringify net_no_sightings ex_queue_world) =
       queue ex_queue_world"
proof -
  have f0: "fetches ex_queue_world = []"
    by (simp add: ex_queue_world_def empty_world_def)
  from ex_queue_distinct
    drain_resubmits_by_category [of ex_queue_world ex_parse ex_stringify net_no_sightings ex_origin]
  show ?thesis
    unfolding ex_queue f0
    by (simp add: ex_categories ex_parse_def ex_stringify_def ex_payload_def
        net_no_sightings_def)
qed

text \<open>
  Claim C3 as stated fails: the alerts queued under \<^verbatim>\<open>/api/alerts?n=1\<close> and
  \<^verbatim>\<open>/api/alerts?n=2\<close> are resubmitted to \<^verbatim>\<open>/api/alerts\<close>, not to their own URLs; and they are
  deleted although the server answered 404.
\<close>

theorem alerts_are_resubmitted_to_a_fixed_url:
  "cache_keys (queue ex_queue_world) =
       [ex_origin @ ''/api/alerts?n=1'', ex_origin @ ''/api/sightings?n=1'',
        ex_origin @ ''/api/alerts?n=2'']
   \<and> fetches (syncAlerts ex_parse ex_stringify net_404 ex_origin ex_queue_world) =
       [\<lparr>req_method = ''POST'', url = ex_origin @ ''/api/alerts'',
          req_headers = [(''Content-Type'', ''application/json'')], req_body = ''[101]''\<rparr>,
        \<lparr>req_method = ''POST'', url = ex_origin @ ''/api/alerts'',
          req_headers = [(''Content-Type'', ''application/json'')], req_body = ''[103]''\<rparr>]
   \<and> ex_origin @ ''/api/alerts'' \<noteq> ex_origin @ ''/api/alerts?n=1''
   \<and> ex_origin @ ''/api/alerts'' \<noteq> ex_origin @ ''/api/alerts?n=2''
   \<and> net_404 \<lparr>req_method = ''POST'', url = ex_origin @ ''/api/alerts'',
          req_headers = [(''Content-Type'', ''application/json'')], req_body = ''[101]''\<rparr> = Some ex_not_found
   \<and> \<not> response_ok ex_not_found
   \<and> cache_keys (queue (syncAlerts ex_parse ex_stringify net_404 ex_origin ex_queue_world)) =
       [ex_origin @ ''/api/sightings?n=1'']"
proof -
  have f0: "fetches ex_queue_world = []"
    by (simp add: ex_queue_world_def empty_world_def)
  show ?thesis
    unfolding syncAlerts_effect [OF ex_queue_distinct] ex_queue f0
    by (simp add: ex_categories planned_def undelivered_def ex_parse_def ex_stringify_def
        ex_payload_def net_404_def resolve_def cache_keys_def response_ok_def ex_not_found_def)
qed

end
